theory Spec2Isabelle
  imports Complex_Main "HOL-Library.Log_Nat" "HOL-Library.Sublist" "HOL-Library.AList"
begin

section \<open>Scheduler cache: resource lists and namespaces\<close>

text \<open>
  Source: \<^verbatim>\<open>experiment/pkg/scheduler/cache/namespace.go\<close>.

  A \<^verbatim>\<open>v1.ResourceList\<close> is a Go map from resource names to \<^verbatim>\<open>resource.Quantity\<close>.
  It is modelled as an association list: the order of the list is the order in which
  \<^verbatim>\<open>range\<close> visits the map (Go leaves it unspecified, so every order is possible),
  and \<open>map_of\<close> is the lookup \<^verbatim>\<open>m[k]\<close>.

  A quantity is an exact decimal number, its \<open>number\<close>, a rational. \<^verbatim>\<open>Cmp\<close> compares
  the exact numbers. \<^verbatim>\<open>Value()\<close> returns an int64: the number rounded to a whole number
  away from zero, when that fits. A quantity can be larger than an int64 (\<^verbatim>\<open>10E\<close> is
  \<open>10^19\<close>), and what \<^verbatim>\<open>Value()\<close> returns then depends on how the library holds the
  quantity: it is 0 when the library's scaled multiplication overflows, as for \<^verbatim>\<open>10E\<close>,
  and a wrapped-around number otherwise. A quantity therefore carries that result, an
  int64, as its second component, \<open>overflowValue\<close>; \<open>Q x\<close> is the quantity \<open>x\<close> for which
  it is 0.
\<close>

type_synonym ResourceName = string
datatype Quantity = Quantity (number: rat) (overflowValue: int)

type_synonym ResourceList = "(ResourceName \<times> Quantity) list"

abbreviation Q :: "rat \<Rightarrow> Quantity" where
  "Q x \<equiv> Quantity x 0"

definition roundAway :: "rat \<Rightarrow> int" where
  "roundAway x = (if 0 \<le> x then \<lceil>x\<rceil> else \<lfloor>x\<rfloor>)"

definition Value :: "Quantity \<Rightarrow> int" where
  "Value q =
     (let r = roundAway (number q)
      in if - (2 ^ 63) \<le> r \<and> r < 2 ^ 63 then r else overflowValue q)"

definition Cmp :: "Quantity \<Rightarrow> Quantity \<Rightarrow> int" where
  "Cmp q v = (if number q < number v then - 1 else if number q = number v then 0 else 1)"

definition Add :: "Quantity \<Rightarrow> Quantity \<Rightarrow> Quantity" where
  \<comment> \<open>\<^verbatim>\<open>q.Add(y)\<close>; the sums of the model are compared and never read through \<^verbatim>\<open>Value()\<close>\<close>
  "Add q y = Quantity (number q + number y) (overflowValue q)"

subsection \<open>The float64 arithmetic used by GetLeastFitSliceNum\<close>

text \<open>
  \<^verbatim>\<open>math.Ceil(float64(q.Value()) / float64(v.Value()))\<close> converts both integers to
  IEEE binary64 and divides there. A finite binary64 number is a rational; conversion
  and division round the exact result to 53 significant bits, ties to even. The
  exponent range is not modelled: all values that occur lie between \<open>2^-63\<close> and \<open>2^63\<close>
  in magnitude, far inside it. The divisor is never zero where the source divides.
\<close>

definition round_half_even :: "rat \<Rightarrow> int" where
  "round_half_even m =
     (let f = \<lfloor>m\<rfloor>; d = m - of_int f
      in if d < 1 / 2 then f else if 1 / 2 < d then f + 1 else if even f then f else f + 1)"

definition ilog2 :: "rat \<Rightarrow> int" where
  \<comment> \<open>for positive \<open>x\<close>, the integer \<open>e\<close> with \<open>2^e \<le> x < 2^(e+1)\<close>\<close>
  "ilog2 x =
     (let (p, q) = quotient_of x; k = bitlen p - bitlen q
      in if of_int p < (of_int q :: rat) * 2 powi k then k - 1 else k)"

definition float64_round :: "rat \<Rightarrow> rat" where
  "float64_round x =
     (if x = 0 then 0
      else let u = 2 powi (ilog2 \<bar>x\<bar> - 52)
           in of_int (round_half_even (x / u)) * u)"

definition float64 :: "int \<Rightarrow> rat" where
  \<comment> \<open>the conversion \<^verbatim>\<open>float64(i)\<close> of an int64\<close>
  "float64 i = float64_round (of_int i)"

definition float64_div :: "rat \<Rightarrow> rat \<Rightarrow> rat" where
  "float64_div a b = float64_round (a / b)"

definition math_Ceil :: "rat \<Rightarrow> rat" where
  "math_Ceil x = of_int \<lceil>x\<rceil>"

definition go_int :: "rat \<Rightarrow> int" where
  \<comment> \<open>the conversion \<^verbatim>\<open>int(n)\<close> of a float64 on a 64-bit platform: truncation towards
      zero; outside the int64 range Go leaves the result to the implementation, and
      amd64 yields the smallest int64\<close>
  "go_int x =
     (let t = (if 0 \<le> x then \<lfloor>x\<rfloor> else \<lceil>x\<rceil>)
      in if - (2 ^ 63) \<le> t \<and> t < 2 ^ 63 then t else - (2 ^ 63))"

subsection \<open>Placement, Namespace, Slice\<close>

record Placement =
  p_cluster :: string
  p_num :: int

record Namespace =
  ns_owner :: string
  ns_name :: string
  ns_labels :: "string \<rightharpoonup> string"
  ns_quota :: ResourceList
  ns_quotaSlice :: ResourceList
  ns_schedule :: "Placement list"

record Slice =
  sl_owner :: string
  sl_unit :: ResourceList
  sl_cluster :: string

definition NewNamespace ::
  "string \<Rightarrow> string \<Rightarrow> (string \<rightharpoonup> string) \<Rightarrow> ResourceList \<Rightarrow> ResourceList \<Rightarrow>
     Placement list \<Rightarrow> Namespace"
where
  "NewNamespace owner name labels quota quotaSlice schedule =
     \<lparr>ns_owner = owner, ns_name = name, ns_labels = labels, ns_quota = quota,
      ns_quotaSlice = quotaSlice, ns_schedule = schedule\<rparr>"

definition NewSlice :: "string \<Rightarrow> ResourceList \<Rightarrow> string \<Rightarrow> Slice" where
  "NewSlice owner sliceSize cluster = \<lparr>sl_owner = owner, sl_unit = sliceSize, sl_cluster = cluster\<rparr>"

text \<open>
  The four \<^verbatim>\<open>fmt.Errorf\<close> results of \<^verbatim>\<open>GetLeastFitSliceNum\<close>, in source order:
  ``quota slice resouce k is missing from quota'', ``quota slice resource k has value
  of 0'', ``quota slice is larger than quota for resource k'' and ``quota slice has
  missing resouces more''.
\<close>

datatype slice_error =
    SliceResourceMissingFromQuota ResourceName
  | SliceResourceHasValueZero ResourceName
  | SliceLargerThanQuota ResourceName
  | SliceHasMissingResources "ResourceName list"

text \<open>
  The loop \<^verbatim>\<open>for k, v := range quotaSlice\<close>. Its state is the set \<^verbatim>\<open>more\<close> (\<open>more_keys\<close>, a list
  without duplicates) and the running maximum \<^verbatim>\<open>num\<close>; an early \<^verbatim>\<open>return 0, err\<close>
  is \<open>Inl err\<close>.
\<close>

fun rangeQuotaSlice ::
  "ResourceList \<Rightarrow> ResourceList \<Rightarrow> ResourceName list \<Rightarrow> int \<Rightarrow> slice_error + (ResourceName list \<times> int)"
where
  "rangeQuotaSlice quota [] more_keys num = Inr (more_keys, num)"
| "rangeQuotaSlice quota ((k, v) # rest) more_keys num =
     (case map_of quota k of
        None \<Rightarrow> Inl (SliceResourceMissingFromQuota k)
      | Some q \<Rightarrow>
          if Value v = 0 then Inl (SliceResourceHasValueZero k)
          else if Cmp q v = - 1 then Inl (SliceLargerThanQuota k)
          else
            let n = math_Ceil (float64_div (float64 (Value q)) (float64 (Value v)))
            in rangeQuotaSlice quota rest (removeAll k more_keys)
                 (if go_int n > num then go_int n else num))"

definition GetLeastFitSliceNum :: "ResourceList \<Rightarrow> ResourceList \<Rightarrow> int \<times> slice_error option" where
  "GetLeastFitSliceNum quota quotaSlice =
     (case rangeQuotaSlice quota quotaSlice (remdups (map fst quota)) 0 of
        Inl err \<Rightarrow> (0, Some err)
      | Inr (more_keys, num) \<Rightarrow>
          if length more_keys \<noteq> 0 then (0, Some (SliceHasMissingResources more_keys))
          else (num, None))"

definition GetTotalSlices :: "Namespace \<Rightarrow> int" where
  "GetTotalSlices n = fst (GetLeastFitSliceNum (ns_quota n) (ns_quotaSlice n))"

text \<open>
  The claimed value of \<^verbatim>\<open>GetTotalSlices\<close>, in the words of the specification: the
  maximum over the resources \<open>r\<close> of \<open>ceil(quota[r] / quotaSlice[r])\<close>. A missing key
  reads as the zero quantity, as a Go map does.
\<close>

definition quantityOf :: "ResourceList \<Rightarrow> ResourceName \<Rightarrow> Quantity" where
  "quantityOf m r = (case map_of m r of None \<Rightarrow> Q 0 | Some q \<Rightarrow> q)"

definition spec_TotalSlices :: "ResourceList \<Rightarrow> ResourceList \<Rightarrow> int" where
  "spec_TotalSlices quota quotaSlice =
     Max ((\<lambda>(r, v). \<lceil>number (quantityOf quota r) / number v\<rceil>) ` set quotaSlice)"

text \<open>The failure modes the specification lists for \<^verbatim>\<open>GetLeastFitSliceNum\<close>, and the
  fourth one the source has.\<close>

definition sliceResourceMissing :: "ResourceList \<Rightarrow> ResourceList \<Rightarrow> bool" where
  "sliceResourceMissing quota quotaSlice = list_ex (\<lambda>(k, v). map_of quota k = None) quotaSlice"

definition sliceValueZero :: "ResourceList \<Rightarrow> bool" where
  "sliceValueZero quotaSlice = list_ex (\<lambda>(k, v). Value v = 0) quotaSlice"

definition sliceExceedsQuota :: "ResourceList \<Rightarrow> ResourceList \<Rightarrow> bool" where
  "sliceExceedsQuota quota quotaSlice =
     list_ex (\<lambda>(k, v). case map_of quota k of None \<Rightarrow> False | Some q \<Rightarrow> number q < number v)
       quotaSlice"

definition quotaResourceMissing :: "ResourceList \<Rightarrow> ResourceList \<Rightarrow> bool" where
  "quotaResourceMissing quota quotaSlice =
     list_ex (\<lambda>k. k \<notin> set (map fst quotaSlice)) (map fst quota)"

definition sameResources :: "ResourceList \<Rightarrow> ResourceList \<Rightarrow> bool" where
  "sameResources quota quotaSlice = (set (map fst quota) = set (map fst quotaSlice))"

definition whole :: "Quantity \<Rightarrow> bool" where
  \<comment> \<open>the quantity is a whole number of units\<close>
  "whole q = (of_int \<lfloor>number q\<rfloor> = number q)"

definition Equals :: "ResourceList \<Rightarrow> ResourceList \<Rightarrow> bool" where
  "Equals a b =
     (if length a \<noteq> length b then False
      else list_all (\<lambda>(key, value1).
             case map_of b key of None \<Rightarrow> False | Some value2 \<Rightarrow> Cmp value1 value2 = 0) a)"

section \<open>Scheduler cache: clusters\<close>

text \<open>
  Modelled from the spec: the scheduler-cache \<^verbatim>\<open>Cluster\<close> with \<^verbatim>\<open>NewCluster\<close> and
  \<^verbatim>\<open>AddNamespace\<close>. Their source file is not among the sources; only its test
  (\<^verbatim>\<open>TestAddNamespace\<close>) is. The specification says: all slices must carry this
  cluster's name; for each, \<open>alloc + \<Sum> unit \<le> capacity\<close> componentwise, and every
  resource key in every slice must exist in capacity. On violation: return an error
  and leave the state untouched. A duplicate add (namespace already present) fails
  with no mutation. On success: extend \<open>allocItems[ns]\<close> and bump \<open>alloc\<close>. The test
  expects a new cluster to have a zero \<open>alloc\<close> entry for every capacity resource.
\<close>

record Pod =
  pod_owner :: string
  pod_namespace :: string
  pod_name :: string
  pod_cluster :: string
  pod_request :: ResourceList

record Cluster =
  cl_name :: string
  cl_labels :: "string \<rightharpoonup> string"
  cl_capacity :: ResourceList
  cl_alloc :: ResourceList
  cl_allocItems :: "string \<rightharpoonup> Slice list"
  cl_pods :: "string \<rightharpoonup> Pod"

datatype cluster_error =
    NamespaceAlreadyAdded string
  | SliceOfOtherCluster string
  | ResourceNotInCapacity ResourceName
  | CapacityExceeded ResourceName

definition NewCluster :: "string \<Rightarrow> (string \<rightharpoonup> string) \<Rightarrow> ResourceList \<Rightarrow> Cluster" where
  "NewCluster name labels capacity =
     \<lparr>cl_name = name, cl_labels = labels, cl_capacity = capacity,
      cl_alloc = map (\<lambda>(k, c). (k, Q 0)) capacity,
      cl_allocItems = Map.empty, cl_pods = Map.empty\<rparr>"

fun addUnit :: "ResourceList \<Rightarrow> ResourceList \<Rightarrow> ResourceList \<Rightarrow> cluster_error + ResourceList" where
  "addUnit capacity alloc [] = Inr alloc"
| "addUnit capacity alloc ((k, v) # rest) =
     (case map_of capacity k of
        None \<Rightarrow> Inl (ResourceNotInCapacity k)
      | Some c \<Rightarrow>
          let a = Add (quantityOf alloc k) v
          in if Cmp a c = 1 then Inl (CapacityExceeded k)
             else addUnit capacity (AList.update k a alloc) rest)"

fun addSlices :: "string \<Rightarrow> ResourceList \<Rightarrow> ResourceList \<Rightarrow> Slice list \<Rightarrow> cluster_error + ResourceList" where
  "addSlices name capacity alloc [] = Inr alloc"
| "addSlices name capacity alloc (each # rest) =
     (if sl_cluster each \<noteq> name then Inl (SliceOfOtherCluster (sl_cluster each))
      else case addUnit capacity alloc (sl_unit each) of
             Inl err \<Rightarrow> Inl err
           | Inr alloc' \<Rightarrow> addSlices name capacity alloc' rest)"

definition AddNamespace :: "Cluster \<Rightarrow> string \<Rightarrow> Slice list \<Rightarrow> cluster_error option \<times> Cluster" where
  \<comment> \<open>the returned cluster is the receiver after the call\<close>
  "AddNamespace c ns slices =
     (if cl_allocItems c ns \<noteq> None then (Some (NamespaceAlreadyAdded ns), c)
      else case addSlices (cl_name c) (cl_capacity c) (cl_alloc c) slices of
             Inl err \<Rightarrow> (Some err, c)
           | Inr alloc' \<Rightarrow>
               (None, c\<lparr>cl_alloc := alloc', cl_allocItems := (cl_allocItems c)(ns \<mapsto> slices)\<rparr>))"

section \<open>Kubernetes objects, API errors and delete options\<close>

text \<open>
  The object metadata the sources read. \<^verbatim>\<open>m[k]\<close> on a Go map of strings yields the
  empty string for a missing key (\<open>stringAt\<close>). A deletion timestamp is a point in
  time; \<^verbatim>\<open>IsZero\<close> holds of the nil pointer and of the zero time.
\<close>

record ObjectMeta =
  obj_Name :: string
  obj_Namespace :: string
  obj_UID :: string
  obj_Labels :: "string \<rightharpoonup> string"
  obj_Annotations :: "string \<rightharpoonup> string"
  obj_DeletionTimestamp :: "nat option"

definition stringAt :: "(string \<rightharpoonup> string) \<Rightarrow> string \<Rightarrow> string" where
  "stringAt m k = (case m k of None \<Rightarrow> [] | Some v \<Rightarrow> v)"

definition IsZero :: "nat option \<Rightarrow> bool" where
  "IsZero t = (case t of None \<Rightarrow> True | Some n \<Rightarrow> n = 0)"

text \<open>
  An error is either an API status error, which carries a reason and a message, or any
  other error, of which only the message matters. \<^verbatim>\<open>errors.IsNotFound\<close> and
  \<^verbatim>\<open>errors.IsAlreadyExists\<close> test the reason; both are false of \<^verbatim>\<open>nil\<close>.
\<close>

datatype StatusReason =
    StatusReasonUnknown
  | StatusReasonNotFound
  | StatusReasonAlreadyExists
  | StatusReasonConflict
  | StatusReasonForbidden
  | StatusReasonBadRequest
  | StatusReasonInternalError

datatype error =
    StatusError StatusReason string
  | Errorf string

fun Error :: "error \<Rightarrow> string" where
  "Error (StatusError reason msg) = msg"
| "Error (Errorf msg) = msg"

fun IsNotFound :: "error option \<Rightarrow> bool" where
  "IsNotFound (Some (StatusError reason msg)) = (reason = StatusReasonNotFound)"
| "IsNotFound err = False"

fun IsAlreadyExists :: "error option \<Rightarrow> bool" where
  "IsAlreadyExists (Some (StatusError reason msg)) = (reason = StatusReasonAlreadyExists)"
| "IsAlreadyExists err = False"

record DeleteOptions =
  PropagationPolicy :: "string option"
  Preconditions_UID :: "string option"

definition NewPreconditionDeleteOptions :: "string \<Rightarrow> DeleteOptions" where
  "NewPreconditionDeleteOptions uid = \<lparr>PropagationPolicy = None, Preconditions_UID = Some uid\<rparr>"

section \<open>Namespace syncer: downward reconcile\<close>

text \<open>
  Source: the namespace syncer's \<^verbatim>\<open>Reconcile\<close>, \<^verbatim>\<open>reconcileNamespaceCreate\<close>,
  \<^verbatim>\<open>reconcileNamespaceUpdate\<close> and \<^verbatim>\<open>reconcileNamespaceRemove\<close>.

  The controller's collaborators are not among the sources and are parameters: the
  super cluster's namespace lister, the multi-cluster controller (tenant caches and
  owner information), the conversion functions, the feature gate, and the constants.
  The super cluster's API server is a parameter too: \<open>nsc_Create\<close>, \<open>nsc_Update\<close> and
  \<open>nsc_Delete\<close> give its answer to a request. A reconcile returns its result together
  with the list of requests it sent to the super cluster, in order.
\<close>

record Request =
  req_ClusterName :: string
  req_Namespace :: string
  req_Name :: string
  req_UID :: string

record Result =
  Requeue :: bool
  RequeueAfter :: nat

datatype namespace_call =
    CreateNamespace ObjectMeta
  | UpdateNamespace ObjectMeta
  | DeleteNamespace string DeleteOptions

record 'vc NamespaceController =
  nsc_ToSuperMasterNamespace :: "string \<Rightarrow> string \<Rightarrow> string"
  nsc_LabelUID :: string
  nsc_DefaultDeletionPolicy :: string
  nsc_nsLister_Get :: "string \<Rightarrow> error + ObjectMeta"
  nsc_Get :: "string \<Rightarrow> string \<Rightarrow> string \<Rightarrow> error + ObjectMeta"
  nsc_GetOwnerInfo :: "string \<Rightarrow> error + (string \<times> string \<times> string)"
  nsc_BuildSuperMasterNamespace ::
    "string \<Rightarrow> string \<Rightarrow> string \<Rightarrow> string \<Rightarrow> ObjectMeta \<Rightarrow> error + ObjectMeta"
  nsc_SuperClusterPooling :: bool
  nsc_GetVirtualClusterObject :: "string \<Rightarrow> error + 'vc"
  nsc_CheckNamespaceEquality :: "'vc \<Rightarrow> ObjectMeta \<Rightarrow> ObjectMeta \<Rightarrow> ObjectMeta option"
  nsc_Create :: "ObjectMeta \<Rightarrow> error option"
  nsc_Update :: "ObjectMeta \<Rightarrow> error option"
  nsc_Delete :: "string \<Rightarrow> DeleteOptions \<Rightarrow> error option"

definition reconcileNamespaceCreate ::
  "'vc NamespaceController \<Rightarrow> string \<Rightarrow> string \<Rightarrow> string \<Rightarrow> ObjectMeta \<Rightarrow>
     error option \<times> namespace_call list"
where
  "reconcileNamespaceCreate c clusterName targetNamespace requestUID vNamespace =
     (case nsc_GetOwnerInfo c clusterName of
        Inl err \<Rightarrow> (Some err, [])
      | Inr (vcName, vcNamespace, vcUID) \<Rightarrow>
          (case nsc_BuildSuperMasterNamespace c clusterName vcName vcNamespace vcUID vNamespace of
             Inl err \<Rightarrow> (Some err, [])
           | Inr newObj \<Rightarrow>
               let err = nsc_Create c newObj
               in if IsAlreadyExists err then (None, [CreateNamespace newObj])
                  else (err, [CreateNamespace newObj])))"

definition reconcileNamespaceUpdate ::
  "'vc NamespaceController \<Rightarrow> string \<Rightarrow> string \<Rightarrow> string \<Rightarrow> ObjectMeta \<Rightarrow> ObjectMeta \<Rightarrow>
     error option \<times> namespace_call list"
where
  "reconcileNamespaceUpdate c clusterName targetNamespace requestUID pNamespace vNamespace =
     (if stringAt (obj_Annotations pNamespace) (nsc_LabelUID c) \<noteq> requestUID
      then (Some (Errorf (''pNamespace '' @ targetNamespace @
                    '' exists but its delegated UID is different'')), [])
      else if nsc_SuperClusterPooling c then
        (case nsc_GetVirtualClusterObject c clusterName of
           Inl err \<Rightarrow> (Some err, [])
         | Inr vc \<Rightarrow>
             (case nsc_CheckNamespaceEquality c vc pNamespace vNamespace of
                None \<Rightarrow> (None, [])
              | Some updatedNamespace \<Rightarrow>
                  (case nsc_Update c updatedNamespace of
                     Some err \<Rightarrow> (Some err, [UpdateNamespace updatedNamespace])
                   | None \<Rightarrow> (None, [UpdateNamespace updatedNamespace]))))
      else (None, []))"

definition reconcileNamespaceRemove ::
  "'vc NamespaceController \<Rightarrow> string \<Rightarrow> string \<Rightarrow> string \<Rightarrow> ObjectMeta \<Rightarrow>
     error option \<times> namespace_call list"
where
  "reconcileNamespaceRemove c clusterName targetNamespace requestUID pNamespace =
     (if stringAt (obj_Annotations pNamespace) (nsc_LabelUID c) \<noteq> requestUID
      then (Some (Errorf (''to be deleted pNamespace '' @ targetNamespace @
                    '' delegated UID is different from deleted object'')), [])
      else
        let opts = \<lparr>PropagationPolicy = Some (nsc_DefaultDeletionPolicy c),
                    Preconditions_UID = Some (obj_UID pNamespace)\<rparr>;
            err = nsc_Delete c targetNamespace opts
        in if IsNotFound err then (None, [DeleteNamespace targetNamespace opts])
           else (err, [DeleteNamespace targetNamespace opts]))"

text \<open>
  A lookup in a cache yields the object, or ``not found'', or fails with another error;
  \<open>lookupObject\<close> is the pattern \<^verbatim>\<open>exists := true; if err != nil { if
  !errors.IsNotFound(err) { return ... }; exists = false }\<close> of \<^verbatim>\<open>Reconcile\<close>.
\<close>

definition lookupObject :: "error + 'a \<Rightarrow> error + 'a option" where
  "lookupObject r =
     (case r of
        Inr obj \<Rightarrow> Inr (Some obj)
      | Inl err \<Rightarrow> if \<not> IsNotFound (Some err) then Inl err else Inr None)"

definition requeueOnError :: "error option \<times> namespace_call list \<Rightarrow> (Result \<times> error option) \<times> namespace_call list" where
  "requeueOnError r =
     (case fst r of
        Some err \<Rightarrow> ((\<lparr>Requeue = True, RequeueAfter = 0\<rparr>, Some err), snd r)
      | None \<Rightarrow> ((\<lparr>Requeue = False, RequeueAfter = 0\<rparr>, None), snd r))"

definition Reconcile ::
  "'vc NamespaceController \<Rightarrow> Request \<Rightarrow> (Result \<times> error option) \<times> namespace_call list"
where
  "Reconcile c request =
     (let targetNamespace =
            nsc_ToSuperMasterNamespace c (req_ClusterName request) (req_Name request)
      in case lookupObject (nsc_nsLister_Get c targetNamespace) of
           Inl err \<Rightarrow> ((\<lparr>Requeue = True, RequeueAfter = 0\<rparr>, Some err), [])
         | Inr pNamespace \<Rightarrow>
             (case lookupObject (nsc_Get c (req_ClusterName request) (req_Namespace request)
                                  (req_Name request)) of
                Inl err \<Rightarrow> ((\<lparr>Requeue = True, RequeueAfter = 0\<rparr>, Some err), [])
              | Inr vNamespaceObj \<Rightarrow>
                  (case (vNamespaceObj, pNamespace) of
                     (Some vNamespace, None) \<Rightarrow>
                       requeueOnError (reconcileNamespaceCreate c (req_ClusterName request)
                         targetNamespace (req_UID request) vNamespace)
                   | (None, Some p) \<Rightarrow>
                       requeueOnError (reconcileNamespaceRemove c (req_ClusterName request)
                         targetNamespace (req_UID request) p)
                   | (Some vNamespace, Some p) \<Rightarrow>
                       requeueOnError (reconcileNamespaceUpdate c (req_ClusterName request)
                         targetNamespace (req_UID request) p vNamespace)
                   | (None, None) \<Rightarrow> ((\<lparr>Requeue = False, RequeueAfter = 0\<rparr>, None), []))))"

definition deletePreconditions :: "namespace_call list \<Rightarrow> string option list" where
  \<comment> \<open>the UID precondition of every DELETE among the requests\<close>
  "deletePreconditions calls =
     concat (map (\<lambda>call. case call of DeleteNamespace nm opts \<Rightarrow> [Preconditions_UID opts]
                                   | _ \<Rightarrow> []) calls)"

section \<open>Service syncer: the patroller\<close>

text \<open>
  Source: \<^verbatim>\<open>pkg/syncer/resources/service/checker.go\<close>.

  The tenant caches, the super cluster's lister and client, the conversion and equality
  functions and \<^verbatim>\<open>isBackPopulateService\<close> are not among the sources and are
  parameters. What a patrol pass does to the outside is recorded as a list of effects,
  in order; the three package-level counters are part of the state. Counters are
  \<^verbatim>\<open>uint64\<close> in the source and natural numbers here. The goroutines that check the
  tenant clusters run concurrently in the source; here they run one after the other,
  in the order of \<^verbatim>\<open>clusterNames\<close>. The loop over the super cluster's services
  starts only after all of them are done (\<^verbatim>\<open>wg.Wait()\<close>).
\<close>

record v1Service = ObjectMeta +
  svc_Spec :: string
  svc_Status :: string

datatype patrol_effect =
    RequeueObject string v1Service
  | EnqueueService v1Service
  | DeleteService string string DeleteOptions
  | IncRemedyStat string
  | SetMissMatchStat string nat

record PatrolState =
  effects :: "patrol_effect list"
  numSpecMissMatchedServices :: nat
  numStatusMissMatchedServices :: nat
  numUWMetaMissMatchedServices :: nat

record 'vc ServiceController =
  svc_ToSuperMasterNamespace :: "string \<Rightarrow> string \<Rightarrow> string"
  svc_GetVirtualOwner :: "v1Service \<Rightarrow> string \<times> string"
  svc_LabelUID :: string
  svc_GetClusterNames :: "string list"
  svc_List :: "string \<Rightarrow> error + v1Service list"
  svc_Get :: "string \<Rightarrow> string \<Rightarrow> string \<Rightarrow> error + v1Service"
  svc_RequeueObject :: "string \<Rightarrow> v1Service \<Rightarrow> error option"
  svc_serviceLister_List :: "error + v1Service list"
  svc_serviceLister_Get :: "string \<Rightarrow> string \<Rightarrow> error + v1Service"
  svc_Delete :: "string \<Rightarrow> string \<Rightarrow> DeleteOptions \<Rightarrow> error option"
  svc_GetVirtualClusterObject :: "string \<Rightarrow> error + 'vc"
  svc_CheckServiceEquality :: "'vc \<Rightarrow> v1Service \<Rightarrow> v1Service \<Rightarrow> v1Service option"
  svc_CheckUWObjectMetaEquality :: "'vc \<Rightarrow> v1Service \<Rightarrow> v1Service \<Rightarrow> ObjectMeta option"
  svc_isBackPopulateService :: "v1Service \<Rightarrow> bool"

definition emit :: "patrol_effect \<Rightarrow> PatrolState \<Rightarrow> PatrolState" where
  "emit e st = st\<lparr>effects := effects st @ [e]\<rparr>"

definition requeueTenantService :: "'vc ServiceController \<Rightarrow> string \<Rightarrow> v1Service \<Rightarrow> PatrolState \<Rightarrow> PatrolState" where
  \<comment> \<open>\<^verbatim>\<open>RequeueObject\<close>, then the remedy counter unless it failed\<close>
  "requeueTenantService c clusterName vService st =
     (let st' = emit (RequeueObject clusterName vService) st
      in case svc_RequeueObject c clusterName vService of
           Some err \<Rightarrow> st'
         | None \<Rightarrow> emit (IncRemedyStat ''RequeuedTenantServices'') st')"

definition checkTenantService :: "'vc ServiceController \<Rightarrow> string \<Rightarrow> v1Service \<Rightarrow> PatrolState \<Rightarrow> PatrolState" where
  \<comment> \<open>the body of the loop of \<^verbatim>\<open>checkServicesOfTenantCluster\<close>\<close>
  "checkTenantService c clusterName vService st =
     (let targetNamespace = svc_ToSuperMasterNamespace c clusterName (obj_Namespace vService)
      in case svc_serviceLister_Get c targetNamespace (obj_Name vService) of
           Inl err \<Rightarrow>
             if IsNotFound (Some err) then requeueTenantService c clusterName vService st
             else st
         | Inr pService \<Rightarrow>
             if stringAt (obj_Annotations pService) (svc_LabelUID c) \<noteq> obj_UID vService then st
             else
               (case svc_GetVirtualClusterObject c clusterName of
                  Inl err \<Rightarrow> st
                | Inr vc \<Rightarrow>
                    let st1 =
                          (case svc_CheckServiceEquality c vc pService vService of
                             None \<Rightarrow> st
                           | Some updatedService \<Rightarrow>
                               requeueTenantService c clusterName vService
                                 (st\<lparr>numSpecMissMatchedServices :=
                                        numSpecMissMatchedServices st + 1\<rparr>))
                    in if svc_isBackPopulateService c pService then
                         let st2 =
                               (case svc_CheckUWObjectMetaEquality c vc pService vService of
                                  None \<Rightarrow> st1
                                | Some updatedMeta \<Rightarrow>
                                    st1\<lparr>numUWMetaMissMatchedServices :=
                                          numUWMetaMissMatchedServices st1 + 1\<rparr>);
                             enqueue1 =
                               (svc_CheckUWObjectMetaEquality c vc pService vService \<noteq> None);
                             st3 =
                               (if svc_Status vService \<noteq> svc_Status pService
                                then st2\<lparr>numStatusMissMatchedServices :=
                                           numStatusMissMatchedServices st2 + 1\<rparr>
                                else st2);
                             enqueue = (enqueue1 \<or> svc_Status vService \<noteq> svc_Status pService)
                         in if enqueue then emit (EnqueueService pService) st3 else st3
                       else st1))"

definition checkServicesOfTenantCluster :: "'vc ServiceController \<Rightarrow> string \<Rightarrow> PatrolState \<Rightarrow> PatrolState" where
  "checkServicesOfTenantCluster c clusterName st =
     (case svc_List c clusterName of
        Inl err \<Rightarrow> st
      | Inr items \<Rightarrow> fold (checkTenantService c clusterName) items st)"

definition patrolSuperService :: "'vc ServiceController \<Rightarrow> v1Service \<Rightarrow> PatrolState \<Rightarrow> PatrolState" where
  \<comment> \<open>the body of the loop \<^verbatim>\<open>for _, pService := range pServices\<close> of \<^verbatim>\<open>PatrollerDo\<close>\<close>
  "patrolSuperService c pService st =
     (case svc_GetVirtualOwner c pService of
        (clusterName, vNamespace) \<Rightarrow>
          if length clusterName = 0 \<or> length vNamespace = 0 then st
          else
            let r = svc_Get c clusterName vNamespace (obj_Name pService);
                shouldDelete1 = (case r of Inl err \<Rightarrow> IsNotFound (Some err) | Inr obj \<Rightarrow> False);
                shouldDelete =
                  (case r of
                     Inl err \<Rightarrow> shouldDelete1
                   | Inr vService \<Rightarrow>
                       if stringAt (obj_Annotations pService) (svc_LabelUID c) \<noteq> obj_UID vService
                       then True else shouldDelete1)
            in if shouldDelete then
                 let deleteOptions = NewPreconditionDeleteOptions (obj_UID pService);
                     st' = emit (DeleteService (obj_Namespace pService) (obj_Name pService)
                                   deleteOptions) st
                 in case svc_Delete c (obj_Namespace pService) (obj_Name pService) deleteOptions of
                      Some err \<Rightarrow> st'
                    | None \<Rightarrow> emit (IncRemedyStat ''DeletedOrphanSuperMasterServices'') st'
               else st)"

definition PatrollerDo :: "'vc ServiceController \<Rightarrow> PatrolState \<Rightarrow> PatrolState" where
  "PatrollerDo c st =
     (let clusterNames = svc_GetClusterNames c
      in if length clusterNames = 0 then st
         else
           let st0 = st\<lparr>numSpecMissMatchedServices := 0, numStatusMissMatchedServices := 0,
                        numUWMetaMissMatchedServices := 0\<rparr>;
               st1 = fold (checkServicesOfTenantCluster c) clusterNames st0
           in case svc_serviceLister_List c of
                Inl err \<Rightarrow> st1
              | Inr pServices \<Rightarrow>
                  let st2 = fold (patrolSuperService c) pServices st1
                  in emit (SetMissMatchStat ''UWMetaMissMatchedServices''
                             (numUWMetaMissMatchedServices st2))
                       (emit (SetMissMatchStat ''StatusMissMatchedServices''
                                (numStatusMissMatchedServices st2))
                          (emit (SetMissMatchStat ''SpecMissMatchedServices''
                                   (numSpecMissMatchedServices st2)) st2)))"

text \<open>
  The deletes among the effects, and the super cluster's services that the
  specification wants deleted: those whose labels identify a tenant owner and whose
  tenant counterpart is not found in the tenant cache or has another UID than the one
  recorded in the \<^verbatim>\<open>LabelUID\<close> annotation.
\<close>

definition deletedServices :: "patrol_effect list \<Rightarrow> (string \<times> string \<times> DeleteOptions) list" where
  "deletedServices es =
     concat (map (\<lambda>e. case e of DeleteService ns nm opts \<Rightarrow> [(ns, nm, opts)] | _ \<Rightarrow> []) es)"

definition orphanedService :: "'vc ServiceController \<Rightarrow> v1Service \<Rightarrow> bool" where
  "orphanedService c pService =
     (case svc_GetVirtualOwner c pService of
        (clusterName, vNamespace) \<Rightarrow>
          clusterName \<noteq> [] \<and> vNamespace \<noteq> [] \<and>
          (case svc_Get c clusterName vNamespace (obj_Name pService) of
             Inl err \<Rightarrow> IsNotFound (Some err)
           | Inr vService \<Rightarrow>
               stringAt (obj_Annotations pService) (svc_LabelUID c) \<noteq> obj_UID vService))"

definition deleteOf :: "v1Service \<Rightarrow> string \<times> string \<times> DeleteOptions" where
  \<comment> \<open>the delete of a super cluster's service, with its own UID as the precondition\<close>
  "deleteOf pService =
     (obj_Namespace pService, obj_Name pService, NewPreconditionDeleteOptions (obj_UID pService))"

section \<open>Hierarchical namespaces: the object validator\<close>

text \<open>
  Source: the object validator's \<^verbatim>\<open>Handle\<close>, \<^verbatim>\<open>isPropagateType\<close>, \<^verbatim>\<open>handle\<close>,
  \<^verbatim>\<open>handleInherited\<close> and \<^verbatim>\<open>isDeletingNS\<close>.

  An admission request carries the raw new and old object. Decoding is done by a
  library; a request is modelled with the outcome of decoding each of them: the error
  message or the object. A missing old object (\<^verbatim>\<open>OldObject.Raw == nil\<close>) is \<open>None\<close>;
  decoding it fails. Parameters, for what is not among the sources: the excluded
  namespaces \<^verbatim>\<open>config.EX\<close>, the mode of the type syncer the forest has for a kind,
  the test for the HNC service account, the API client's answer for a namespace,
  \<^verbatim>\<open>object.Canonical\<close>, the label \<^verbatim>\<open>api.LabelInheritedFrom\<close>, and the checks of
  \<^verbatim>\<open>handle\<close> on an object that is not inherited (selectors and conflicts in the
  forest).
\<close>

datatype Operation = Create | Update | Delete | Connect | OtherOperation string

fun operationString :: "Operation \<Rightarrow> string" where
  "operationString Create = ''CREATE''"
| "operationString Update = ''UPDATE''"
| "operationString Delete = ''DELETE''"
| "operationString Connect = ''CONNECT''"
| "operationString (OtherOperation s) = s"

datatype SynchronizationMode = Propagate | Ignore | Remove

record Unstructured = ObjectMeta +
  un_Content :: string

definition emptyUnstructured :: Unstructured where
  "emptyUnstructured =
     \<lparr>obj_Name = [], obj_Namespace = [], obj_UID = [], obj_Labels = Map.empty,
      obj_Annotations = Map.empty, obj_DeletionTimestamp = None, un_Content = []\<rparr>"

record AdmissionRequest =
  ar_Namespace :: string
  ar_Name :: string
  ar_Kind :: "string \<times> string \<times> string"
  ar_Operation :: Operation
  ar_UserInfo :: string
  ar_Object :: "string + Unstructured"
  ar_OldObject :: "(string + Unstructured) option"

text \<open>
  Modelled from the spec: the helpers \<^verbatim>\<open>allow\<close> and \<^verbatim>\<open>deny\<close> and
  \<^verbatim>\<open>metadata.GetLabel\<close>, which are not among the sources. A response is structured as
  allowed or denied with a reason and a message (the HTTP code follows from the
  reason and is left out); \<^verbatim>\<open>GetLabel\<close> reads a label and tells whether it is there.
\<close>

record Response =
  Allowed :: bool
  Reason :: "StatusReason option"
  Message :: string

definition allow :: "string \<Rightarrow> Response" where
  "allow msg = \<lparr>Allowed = True, Reason = None, Message = msg\<rparr>"

definition deny :: "StatusReason \<Rightarrow> string \<Rightarrow> Response" where
  "deny reason msg = \<lparr>Allowed = False, Reason = Some reason, Message = msg\<rparr>"

definition GetLabel :: "Unstructured \<Rightarrow> string \<Rightarrow> string \<times> bool" where
  "GetLabel inst label = (case obj_Labels inst label of None \<Rightarrow> ([], False) | Some v \<Rightarrow> (v, True))"

record ObjectValidator =
  ov_EX :: "string \<Rightarrow> bool"
  ov_TypeSyncerMode :: "string \<times> string \<Rightarrow> SynchronizationMode option"
  ov_isHNCServiceAccount :: "string \<Rightarrow> bool"
  ov_client_Get :: "string \<Rightarrow> error + ObjectMeta"
  ov_Canonical :: "Unstructured \<Rightarrow> Unstructured"
  ov_LabelInheritedFrom :: string
  ov_checkSourceObject :: "Unstructured \<Rightarrow> Unstructured \<Rightarrow> Response"

definition isPropagateType :: "ObjectValidator \<Rightarrow> string \<times> string \<times> string \<Rightarrow> bool" where
  "isPropagateType ov gvk =
     (case gvk of (grp, version, knd) \<Rightarrow>
        (case ov_TypeSyncerMode ov (grp, knd) of
           None \<Rightarrow> False
         | Some mode \<Rightarrow> mode = Propagate))"

definition quoted :: "string \<Rightarrow> string" where
  \<comment> \<open>\<^verbatim>\<open>%q\<close>, for a name without characters that need escaping\<close>
  "quoted s = CHR 0x22 # s @ [CHR 0x22]"

definition isDeletingNS :: "ObjectValidator \<Rightarrow> string \<Rightarrow> bool \<times> error option" where
  "isDeletingNS ov ns =
     (case ov_client_Get ov ns of
        Inl err \<Rightarrow>
          if IsNotFound (Some err) then (True, None)
          else (False, Some (Errorf (''while determining whether namespace '' @ quoted ns @
                                       '' is being deleted: '' @ Error err)))
      | Inr nsObj \<Rightarrow>
          if \<not> IsZero (obj_DeletionTimestamp nsObj) then (True, None)
          else (False, None))"

definition handleInherited ::
  "ObjectValidator \<Rightarrow> Operation \<Rightarrow> string \<Rightarrow> string \<Rightarrow> Unstructured \<Rightarrow> Unstructured \<Rightarrow> Response"
where
  "handleInherited ov op newSource oldSource inst oldInst =
     (case op of
        Create \<Rightarrow>
          deny StatusReasonForbidden
            (''Cannot create objects with the label '' @ quoted (ov_LabelInheritedFrom ov))
      | Delete \<Rightarrow>
          (case isDeletingNS ov (obj_Namespace oldInst) of
             (isDeleting, Some err) \<Rightarrow>
               deny StatusReasonInternalError
                 (''Cannot delete object propagated from namespace '' @ quoted oldSource @
                  '' with error: '' @ Error err)
           | (isDeleting, None) \<Rightarrow>
               if \<not> isDeleting then
                 deny StatusReasonForbidden
                   (''Cannot delete object propagated from namespace '' @ quoted oldSource)
               else allow ''allowing deletion of propagated object since namespace is being deleted'')
      | Update \<Rightarrow>
          if newSource \<noteq> oldSource then
            deny StatusReasonForbidden
              (''Cannot modify the label '' @ quoted (ov_LabelInheritedFrom ov))
          else if ov_Canonical ov inst \<noteq> ov_Canonical ov oldInst then
            deny StatusReasonForbidden
              (''Cannot modify object propagated from namespace '' @ quoted oldSource)
          else allow ''no illegal updates to propagated object''
      | _ \<Rightarrow> deny StatusReasonInternalError (''unknown operation: '' @ operationString op))"

definition handle :: "ObjectValidator \<Rightarrow> Operation \<Rightarrow> Unstructured \<Rightarrow> Unstructured \<Rightarrow> Response" where
  "handle ov op inst oldInst =
     (case GetLabel oldInst (ov_LabelInheritedFrom ov) of
        (oldSource, oldInherited) \<Rightarrow>
          (case GetLabel inst (ov_LabelInheritedFrom ov) of
             (newSource, newInherited) \<Rightarrow>
               if \<not> oldInherited \<and> \<not> newInherited then ov_checkSourceObject ov inst oldInst
               else handleInherited ov op newSource oldSource inst oldInst))"

definition Handle :: "ObjectValidator \<Rightarrow> AdmissionRequest \<Rightarrow> Response" where
  "Handle ov req =
     (if ov_EX ov (ar_Namespace req) then allow (''excluded namespace '' @ ar_Namespace req)
      else if \<not> isPropagateType ov (ar_Kind req) then allow ''Non-propagate-mode types''
      else if ov_isHNCServiceAccount ov (ar_UserInfo req) then allow ''HNC SA''
      else
        (case (if ar_Operation req \<noteq> Delete then ar_Object req else Inr emptyUnstructured) of
           Inl err \<Rightarrow> deny StatusReasonBadRequest err
         | Inr inst \<Rightarrow>
             if ar_Operation req \<noteq> Create then
               (if ar_Operation req = Delete \<and> ar_OldObject req = None
                then allow ''cannot validate deletions in K8s 1.14''
                else
                  (case ar_OldObject req of
                     None \<Rightarrow> deny StatusReasonBadRequest ''there is no content to decode''
                   | Some (Inl err) \<Rightarrow> deny StatusReasonBadRequest err
                   | Some (Inr oldInst) \<Rightarrow> handle ov (ar_Operation req) inst oldInst))
             else handle ov (ar_Operation req) inst emptyUnstructured))"

definition namespaceTerminating :: "ObjectValidator \<Rightarrow> string \<Rightarrow> bool" where
  \<comment> \<open>the namespace has a deletion timestamp, or is not found\<close>
  "namespaceTerminating ov ns =
     (case ov_client_Get ov ns of
        Inl err \<Rightarrow> IsNotFound (Some err)
      | Inr nsObj \<Rightarrow> \<not> IsZero (obj_DeletionTimestamp nsObj))"

text \<open>
  A request is validated when none of the early exits of \<^verbatim>\<open>Handle\<close> lets it through:
  its namespace is not excluded, its type is in propagate mode, and its user is not the
  HNC service account. An object is inherited when it carries the label
  \<^verbatim>\<open>LabelInheritedFrom\<close>, whose value names the source namespace.
\<close>

definition validated :: "ObjectValidator \<Rightarrow> AdmissionRequest \<Rightarrow> bool" where
  "validated ov req =
     (\<not> ov_EX ov (ar_Namespace req) \<and> isPropagateType ov (ar_Kind req) \<and>
      \<not> ov_isHNCServiceAccount ov (ar_UserInfo req))"

definition inherited :: "ObjectValidator \<Rightarrow> Unstructured \<Rightarrow> bool" where
  "inherited ov inst = snd (GetLabel inst (ov_LabelInheritedFrom ov))"

definition inheritedFrom :: "ObjectValidator \<Rightarrow> Unstructured \<Rightarrow> string" where
  "inheritedFrom ov inst = fst (GetLabel inst (ov_LabelInheritedFrom ov))"

section \<open>Example inputs\<close>

text \<open>Concrete clusters, controllers and requests, on which the theorems below are
  instantiated. The cluster examples are those of \<^verbatim>\<open>TestAddNamespace\<close>.\<close>

definition notFound :: error where
  "notFound = StatusError StatusReasonNotFound ''not found''"

definition findByName :: "('a ObjectMeta_scheme) list \<Rightarrow> string \<Rightarrow> string \<Rightarrow> error + 'a ObjectMeta_scheme" where
  "findByName objs ns nm =
     (case find (\<lambda>obj. obj_Namespace obj = ns \<and> obj_Name obj = nm) objs of
        None \<Rightarrow> Inl notFound
      | Some obj \<Rightarrow> Inr obj)"

definition defaultCapacity :: ResourceList where
  "defaultCapacity = [(''cpu'', Q 2000000000), (''memory'', Q 4294967296)]"

definition defaultQuotaSlice :: ResourceList where
  "defaultQuotaSlice = [(''cpu'', Q 500000000), (''memory'', Q 1073741824)]"

definition overMemQuotaSlice :: ResourceList where
  "overMemQuotaSlice = [(''cpu'', Q 400000000), (''memory'', Q 5368709120)]"

definition overCpuQuotaSlice :: ResourceList where
  "overCpuQuotaSlice = [(''cpu'', Q 4000000000), (''memory'', Q 3221225472)]"

definition unknownSlice :: ResourceList where
  "unknownSlice = [(''cpu'', Q 500000000), (''memory'', Q 1073741824), (''unknown'', Q 1073741824)]"

definition testCluster :: Cluster where
  "testCluster = NewCluster ''testcluster'' Map.empty defaultCapacity"

definition testSlice :: "ResourceList \<Rightarrow> Slice" where
  "testSlice unit = NewSlice ''testnamespace'' unit ''testcluster''"

definition addTestNamespace :: "Slice list \<Rightarrow> cluster_error option \<times> Cluster" where
  "addTestNamespace slices = AddNamespace testCluster ''testnamespace'' slices"

definition exampleNamespaceController ::
  "ObjectMeta list \<Rightarrow> ObjectMeta list \<Rightarrow> error option \<Rightarrow> unit NamespaceController"
where
  "exampleNamespaceController super tenant answer =
     \<lparr>nsc_ToSuperMasterNamespace = (\<lambda>cluster ns. cluster @ ''-'' @ ns),
      nsc_LabelUID = ''tenancy.x-k8s.io/uid'',
      nsc_DefaultDeletionPolicy = ''Background'',
      nsc_nsLister_Get = findByName super [],
      nsc_Get = (\<lambda>cluster ns nm. findByName tenant ns nm),
      nsc_GetOwnerInfo = (\<lambda>cluster. Inr (''vc'', ''vc-ns'', ''vc-uid'')),
      nsc_BuildSuperMasterNamespace = (\<lambda>cluster vcName vcNamespace vcUID v.
         Inr (v\<lparr>obj_Name := cluster @ ''-'' @ obj_Name v, obj_UID := [],
                 obj_Annotations := (obj_Annotations v)(''tenancy.x-k8s.io/uid'' \<mapsto> obj_UID v)\<rparr>)),
      nsc_SuperClusterPooling = False,
      nsc_GetVirtualClusterObject = (\<lambda>cluster. Inr ()),
      nsc_CheckNamespaceEquality = (\<lambda>vc p v. None),
      nsc_Create = (\<lambda>obj. answer),
      nsc_Update = (\<lambda>obj. answer),
      nsc_Delete = (\<lambda>nm opts. answer)\<rparr>"

definition exampleObject :: "string \<Rightarrow> string \<Rightarrow> (string \<rightharpoonup> string) \<Rightarrow> ObjectMeta" where
  "exampleObject nm uid annotations =
     \<lparr>obj_Name = nm, obj_Namespace = [], obj_UID = uid, obj_Labels = Map.empty,
      obj_Annotations = annotations, obj_DeletionTimestamp = None\<rparr>"

definition exampleRequest :: "string \<Rightarrow> Request" where
  "exampleRequest uid =
     \<lparr>req_ClusterName = ''c1'', req_Namespace = [], req_Name = ''ns1'', req_UID = uid\<rparr>"

definition exampleService :: "string \<Rightarrow> string \<Rightarrow> string \<Rightarrow> (string \<rightharpoonup> string) \<Rightarrow> v1Service" where
  "exampleService ns nm uid annotations =
     \<lparr>obj_Name = nm, obj_Namespace = ns, obj_UID = uid, obj_Labels = Map.empty,
      obj_Annotations = annotations, obj_DeletionTimestamp = None,
      svc_Spec = [], svc_Status = []\<rparr>"

definition exampleServiceController ::
  "string list \<Rightarrow> v1Service list \<Rightarrow> v1Service list \<Rightarrow> unit ServiceController"
where
  "exampleServiceController clusterNames tenant super =
     \<lparr>svc_ToSuperMasterNamespace = (\<lambda>cluster ns. cluster @ ''-'' @ ns),
      svc_GetVirtualOwner = (\<lambda>p. (stringAt (obj_Annotations p) ''cluster'',
                                    stringAt (obj_Annotations p) ''namespace'')),
      svc_LabelUID = ''uid'',
      svc_GetClusterNames = clusterNames,
      svc_List = (\<lambda>cluster. Inr tenant),
      svc_Get = (\<lambda>cluster ns nm. findByName tenant ns nm),
      svc_RequeueObject = (\<lambda>cluster obj. None),
      svc_serviceLister_List = Inr super,
      svc_serviceLister_Get = findByName super,
      svc_Delete = (\<lambda>ns nm opts. None),
      svc_GetVirtualClusterObject = (\<lambda>cluster. Inr ()),
      svc_CheckServiceEquality = (\<lambda>vc p v. None),
      svc_CheckUWObjectMetaEquality = (\<lambda>vc p v. None),
      svc_isBackPopulateService = (\<lambda>p. False)\<rparr>"

definition tenantServices :: "v1Service list" where
  "tenantServices = [exampleService ''default'' ''svc-a'' ''u1'' Map.empty]"

definition superServices :: "v1Service list" where
  "superServices =
     [exampleService ''c1-default'' ''svc-a'' ''p1''
        [''cluster'' \<mapsto> ''c1'', ''namespace'' \<mapsto> ''default'', ''uid'' \<mapsto> ''u1''],
      exampleService ''c1-default'' ''svc-b'' ''p2''
        [''cluster'' \<mapsto> ''c1'', ''namespace'' \<mapsto> ''default'', ''uid'' \<mapsto> ''u2''],
      exampleService ''c1-default'' ''svc-c'' ''p3'' Map.empty]"

definition emptyPatrolState :: PatrolState where
  "emptyPatrolState =
     \<lparr>effects = [], numSpecMissMatchedServices = 0, numStatusMissMatchedServices = 0,
      numUWMetaMissMatchedServices = 0\<rparr>"

definition exampleValidator :: "ObjectMeta list \<Rightarrow> ObjectValidator" where
  "exampleValidator namespaces =
     \<lparr>ov_EX = (\<lambda>ns. ns = ''kube-system''),
      ov_TypeSyncerMode = (\<lambda>gk. if gk = ([], ''Secret'') then Some Propagate else None),
      ov_isHNCServiceAccount = (\<lambda>user. user = ''system:serviceaccount:hnc-system:default''),
      ov_client_Get = findByName namespaces [],
      ov_Canonical = (\<lambda>inst. inst\<lparr>obj_Labels := Map.empty, obj_Annotations := Map.empty\<rparr>),
      ov_LabelInheritedFrom = ''hnc.x-k8s.io/inherited-from'',
      ov_checkSourceObject = (\<lambda>inst oldInst. allow ''source object'')\<rparr>"

definition exampleNamespaceObject :: "string \<Rightarrow> nat option \<Rightarrow> ObjectMeta" where
  "exampleNamespaceObject nm deletionTimestamp =
     \<lparr>obj_Name = nm, obj_Namespace = [], obj_UID = [], obj_Labels = Map.empty,
      obj_Annotations = Map.empty, obj_DeletionTimestamp = deletionTimestamp\<rparr>"

definition exampleSecret :: "string \<Rightarrow> (string \<rightharpoonup> string) \<Rightarrow> string \<Rightarrow> Unstructured" where
  "exampleSecret ns labels content =
     \<lparr>obj_Name = ''secret-1'', obj_Namespace = ns, obj_UID = [], obj_Labels = labels,
      obj_Annotations = Map.empty, obj_DeletionTimestamp = None, un_Content = content\<rparr>"

definition exampleAdmission ::
  "string \<Rightarrow> Operation \<Rightarrow> string + Unstructured \<Rightarrow> (string + Unstructured) option \<Rightarrow> AdmissionRequest"
where
  "exampleAdmission ns op obj old =
     \<lparr>ar_Namespace = ns, ar_Name = ''secret-1'', ar_Kind = ([], ''v1'', ''Secret''),
      ar_Operation = op, ar_UserInfo = ''alice'', ar_Object = obj, ar_OldObject = old\<rparr>"

definition propagatedSecret :: "string \<Rightarrow> string \<Rightarrow> Unstructured" where
  "propagatedSecret ns content =
     exampleSecret ns [''hnc.x-k8s.io/inherited-from'' \<mapsto> ''parent''] content"

section \<open>Properties of the scheduler cache namespace\<close>

subsection \<open>Rounding to binary64\<close>

lemma round_half_even_of_int: "round_half_even (of_int j) = j"
  by (simp add: round_half_even_def)

lemma round_half_even_le:
  assumes "m \<le> of_int j"
  shows "round_half_even m \<le> j"
proof -
  have f: "\<lfloor>m\<rfloor> \<le> j" using assms by (simp add: floor_le_iff)
  show ?thesis
  proof (cases "m = of_int j")
    case True
    then show ?thesis by (simp add: round_half_even_of_int)
  next
    case False
    with assms have "m < of_int j" by simp
    then have "\<lfloor>m\<rfloor> < j" by (simp add: floor_less_iff)
    then show ?thesis by (simp add: round_half_even_def Let_def)
  qed
qed

lemma round_half_even_ge:
  assumes "of_int j + 1 / 2 < m"
  shows "j + 1 \<le> round_half_even m"
proof -
  have "of_int j \<le> m" using assms by simp
  then have f: "j \<le> \<lfloor>m\<rfloor>" by (simp add: le_floor_iff)
  show ?thesis
  proof (cases "j = \<lfloor>m\<rfloor>")
    case True
    then have "1 / 2 < m - of_int \<lfloor>m\<rfloor>" using assms by simp
    then show ?thesis using True by (simp add: round_half_even_def Let_def)
  next
    case False
    with f have "j + 1 \<le> \<lfloor>m\<rfloor>" by simp
    then show ?thesis by (simp add: round_half_even_def Let_def)
  qed
qed

lemma ilog2_bounds:
  assumes "0 < x"
  shows "2 powi (ilog2 x) \<le> x \<and> x < 2 powi (ilog2 x + 1)"
proof -
  obtain p q where pq: "quotient_of x = (p, q)" by (cases "quotient_of x")
  then have q: "0 < q" and x: "x = of_int p / of_int q"
    using quotient_of_denom_pos quotient_of_div by blast+
  have p: "0 < p" using assms q x by (simp add: zero_less_divide_iff)
  define k where "k = bitlen p - bitlen q"
  have bl: "1 \<le> bitlen p" "1 \<le> bitlen q"
    using p q by (auto simp: bitlen_alt_def)
  have bp: "(2::rat) powi (bitlen p - 1) \<le> of_int p" "of_int p < (2::rat) powi (bitlen p)"
  proof -
    from bitlen_bounds[OF p] have "2 ^ nat (bitlen p - 1) \<le> p" "p < 2 ^ nat (bitlen p)" by auto
    then have "(of_int (2 ^ nat (bitlen p - 1)) :: rat) \<le> of_int p" "(of_int p :: rat) < of_int (2 ^ nat (bitlen p))"
      by (simp_all only: of_int_le_iff of_int_less_iff)
    then show "(2::rat) powi (bitlen p - 1) \<le> of_int p" "of_int p < (2::rat) powi (bitlen p)"
      using bl by (simp_all add: power_int_def)
  qed
  have bq: "(2::rat) powi (bitlen q - 1) \<le> of_int q" "of_int q < (2::rat) powi (bitlen q)"
  proof -
    from bitlen_bounds[OF q] have "2 ^ nat (bitlen q - 1) \<le> q" "q < 2 ^ nat (bitlen q)" by auto
    then have "(of_int (2 ^ nat (bitlen q - 1)) :: rat) \<le> of_int q" "(of_int q :: rat) < of_int (2 ^ nat (bitlen q))"
      by (simp_all only: of_int_le_iff of_int_less_iff)
    then show "(2::rat) powi (bitlen q - 1) \<le> of_int q" "of_int q < (2::rat) powi (bitlen q)"
      using bl by (simp_all add: power_int_def)
  qed
  have qr: "(0::rat) < of_int q" using q by simp
  have kk: "(2::rat) powi (bitlen p - 1) = 2 powi (bitlen q) * 2 powi (k - 1)"
           "(2::rat) powi (bitlen p) = 2 powi (bitlen q - 1) * 2 powi (k + 1)"
    by (simp_all add: k_def power_int_add[symmetric])
  show ?thesis
  proof (cases "of_int p < (of_int q :: rat) * 2 powi k")
    case True
    then have e: "ilog2 x = k - 1" by (simp add: ilog2_def pq k_def)
    have "of_int q * (2::rat) powi (k - 1) \<le> 2 powi (bitlen q) * 2 powi (k - 1)"
      using bq(2) by (intro mult_right_mono) simp_all
    then have "of_int q * (2::rat) powi (k - 1) \<le> 2 powi (bitlen p - 1)"
      by (simp only: kk(1))
    then have "of_int q * (2::rat) powi (k - 1) \<le> of_int p"
      using bp(1) by (rule order_trans)
    then have "2 powi (k - 1) \<le> x" using qr by (simp add: x pos_le_divide_eq mult.commute)
    moreover have "x < 2 powi k" using True qr by (simp add: x pos_divide_less_eq mult.commute)
    ultimately show ?thesis by (simp add: e)
  next
    case False
    then have e: "ilog2 x = k" by (simp add: ilog2_def pq k_def)
    have "2 powi (bitlen q - 1) * (2::rat) powi (k + 1) \<le> of_int q * 2 powi (k + 1)"
      using bq(1) by (intro mult_right_mono) simp_all
    then have "2 powi (bitlen p) \<le> of_int q * (2::rat) powi (k + 1)"
      by (simp only: kk(2))
    with bp(2) have "of_int p < of_int q * (2::rat) powi (k + 1)"
      by (rule less_le_trans)
    then have "x < 2 powi (k + 1)" using qr by (simp add: x pos_divide_less_eq mult.commute)
    moreover have "2 powi k \<le> x" using False qr by (simp add: x pos_le_divide_eq mult.commute)
    ultimately show ?thesis by (simp add: e)
  qed
qed

lemma ilog2_range:
  assumes "1 \<le> x" "x \<le> 2 ^ 53"
  shows "0 \<le> ilog2 x \<and> ilog2 x \<le> 53"
proof -
  have pos: "0 < x" using assms by simp
  note b = ilog2_bounds[OF pos]
  have "0 \<le> ilog2 x"
  proof (rule ccontr)
    assume "\<not> 0 \<le> ilog2 x"
    then have "ilog2 x + 1 \<le> 0" by simp
    then have "(2::rat) powi (ilog2 x + 1) \<le> 2 powi 0"
      by (intro power_int_increasing) simp_all
    with b assms show False by simp
  qed
  moreover have "ilog2 x \<le> 53"
  proof (rule ccontr)
    assume "\<not> ilog2 x \<le> 53"
    then have "54 \<le> ilog2 x" by simp
    then have "(2::rat) powi 54 \<le> 2 powi (ilog2 x)"
      by (intro power_int_increasing) simp_all
    with b assms show False by simp
  qed
  ultimately show ?thesis by simp
qed

lemma float64_round_int_exact:
  assumes "1 \<le> i" "i \<le> 2 ^ 53"
  shows "float64_round (of_int i) = of_int i"
proof -
  define x :: rat where "x = of_int i"
  define e where "e = ilog2 x"
  have x1: "1 \<le> x" using assms by (simp add: x_def)
  have x2: "x \<le> 2 ^ 53" using assms(2) by (metis x_def of_int_le_iff of_int_numeral of_int_power)
  have pos: "0 < x" using x1 by simp
  have er: "0 \<le> e" "e \<le> 53" using ilog2_range[OF x1 x2] by (simp_all add: e_def)
  have eb: "2 powi e \<le> x" using ilog2_bounds[OF pos] by (simp add: e_def)
  have fr: "float64_round x = of_int (round_half_even (x / 2 powi (e - 52))) * 2 powi (e - 52)"
    using pos by (simp add: float64_round_def e_def Let_def)
  have "float64_round x = x"
  proof (cases "e = 53")
    case True
    with eb x2 have xv: "x = of_int (2 ^ 53)" by simp
    have "x / 2 powi (e - 52) = of_int (2 ^ 52)" using True by (simp add: xv)
    then show ?thesis by (simp only: fr round_half_even_of_int) (simp add: True xv)
  next
    case False
    with er have e52: "e \<le> 52" by simp
    define N :: int where "N = 2 ^ nat (52 - e)"
    have Nr: "(0::rat) < of_int N" by (simp add: N_def)
    have u: "(2::rat) powi (e - 52) = 1 / of_int N"
    proof -
      have "(2::rat) powi (e - 52) = inverse (2 powi (52 - e))"
        by (simp add: power_int_minus[symmetric])
      also have "(2::rat) powi (52 - e) = of_int N" using e52 by (simp add: N_def power_int_def)
      finally show ?thesis by (simp add: inverse_eq_divide)
    qed
    have "x / 2 powi (e - 52) = of_int (i * N)" by (simp add: u x_def)
    then show ?thesis using Nr by (simp only: fr round_half_even_of_int) (simp add: u x_def)
  qed
  then show ?thesis by (simp add: x_def)
qed

lemma ceiling_float64_div_exact:
  assumes "1 \<le> b" "b \<le> a" "a \<le> 2 ^ 53"
  shows "\<lceil>float64_round (of_int a / of_int b)\<rceil> = \<lceil>(of_int a / of_int b :: rat)\<rceil>"
proof -
  define x :: rat where "x = of_int a / of_int b"
  define e where "e = ilog2 x"
  define K where "K = \<lceil>x\<rceil>"
  have br: "(0::rat) < of_int b" using assms by simp
  have x1: "1 \<le> x" using assms br by (simp add: x_def pos_le_divide_eq)
  have "x \<le> of_int a" using assms br by (simp add: x_def pos_divide_le_eq mult_le_cancel_left1)
  also have "\<dots> \<le> 2 ^ 53" using assms(3) by (metis of_int_le_iff of_int_numeral of_int_power)
  finally have x2: "x \<le> 2 ^ 53" .
  have pos: "0 < x" using x1 by simp
  have er: "0 \<le> e" "e \<le> 53" using ilog2_range[OF x1 x2] by (simp_all add: e_def)
  have eb: "2 powi e \<le> x" using ilog2_bounds[OF pos] by (simp add: e_def)
  have fr: "float64_round x = of_int (round_half_even (x / 2 powi (e - 52))) * 2 powi (e - 52)"
    using pos by (simp add: float64_round_def e_def Let_def)
  have ab: "b * 2 ^ nat e \<le> a"
  proof -
    have "(2::rat) powi e = of_int (2 ^ nat e)" using er by (simp add: power_int_def)
    with eb have "of_int (2 ^ nat e) * of_int b \<le> (of_int a :: rat)"
      using br by (simp add: x_def pos_le_divide_eq)
    then have "(of_int (2 ^ nat e * b) :: rat) \<le> of_int a" by simp
    then show ?thesis by (simp only: of_int_le_iff mult.commute)
  qed
  show ?thesis
  proof (cases "e = 53")
    case True
    have "b * 2 ^ 53 \<le> 1 * (2::int) ^ 53" using ab assms True by simp
    then have "b \<le> 1" by (simp only: mult_le_cancel_right) simp
    with assms have b1: "b = 1" by simp
    with ab True have "2 ^ 53 \<le> a" by simp
    with assms b1 have "b = 1" "a = 2 ^ 53" by simp_all
    then have xv: "x = of_int (2 ^ 53)" by (simp add: x_def)
    have "x / 2 powi (e - 52) = of_int (2 ^ 52)" using True by (simp add: xv)
    then have "float64_round x = x" by (simp only: fr round_half_even_of_int) (simp add: True xv)
    then show ?thesis by (simp add: x_def)
  next
    case False
    with er have e52: "e \<le> 52" by simp
    define N :: int where "N = 2 ^ nat (52 - e)"
    have N1: "1 \<le> N" by (simp add: N_def)
    have Nr: "(0::rat) < of_int N" using N1 by simp
    have u: "(2::rat) powi (e - 52) = 1 / of_int N"
    proof -
      have "(2::rat) powi (e - 52) = inverse (2 powi (52 - e))"
        by (simp add: power_int_minus[symmetric])
      also have "(2::rat) powi (52 - e) = of_int N" using e52 by (simp add: N_def power_int_def)
      finally show ?thesis by (simp add: inverse_eq_divide)
    qed
    define r where "r = round_half_even (x * of_int N)"
    have fr': "float64_round x = of_int r / of_int N"
      by (simp add: fr u r_def)
    have twoN: "2 ^ nat e * (2 * N) = (2::int) ^ 53"
    proof -
      have "2 ^ nat e * (2 * N) = (2::int) ^ (nat e + (Suc (nat (52 - e))))"
        by (simp only: N_def power_add power_Suc)
      also have "nat e + (Suc (nat (52 - e))) = 53" using er e52 by simp
      finally show ?thesis .
    qed
    have bN: "b \<le> 2 * N"
    proof (rule ccontr)
      assume "\<not> b \<le> 2 * N"
      then have "2 * N + 1 \<le> b" by simp
      then have "(2 * N + 1) * 2 ^ nat e \<le> b * 2 ^ nat e" by (intro mult_right_mono) simp_all
      then have "(2 * N + 1) * 2 ^ nat e \<le> a" using ab by (rule order_trans)
      then have "(2 * N + 1) * 2 ^ nat e \<le> (2::int) ^ 53" using assms(3) by (rule order_trans)
      then have "2 ^ nat e * (2 * N) + 2 ^ nat e \<le> (2::int) ^ 53" by (simp add: algebra_simps)
      then have "(2::int) ^ 53 + 2 ^ nat e \<le> 2 ^ 53" by (simp only: twoN)
      then show False by simp
    qed
    have up: "x \<le> of_int K" by (simp add: K_def)
    have lo: "of_int K - 1 < x" using ceiling_correct[of x] by (simp add: K_def)
    have "x * of_int N \<le> of_int (K * N)" using up Nr by simp
    then have rK: "r \<le> K * N" unfolding r_def by (rule round_half_even_le)
    define t where "t = a - (K - 1) * b"
    have t1: "1 \<le> t"
    proof -
      have "of_int (K - 1) * of_int b < (of_int a :: rat)"
        using lo br by (simp add: x_def pos_less_divide_eq)
      then have "(of_int ((K - 1) * b) :: rat) < of_int a" by simp
      then have "(K - 1) * b < a" by (simp only: of_int_less_iff)
      then show ?thesis by (simp add: t_def)
    qed
    have key: "b < 2 * t * N"
    proof (cases "t = 1 \<and> b = 2 * N")
      case True
      then have "2 ^ 53 \<le> a" using ab twoN by (simp add: mult.commute)
      with assms(3) have a: "a = 2 ^ 53" by simp
      from True have tt: "t = 1" and bb: "b = 2 * N" by simp_all
      from tt have "a - (K - 1) * b = 1" unfolding t_def .
      then have "a = (K - 1) * b + 1" by linarith
      then have "a = (K - 1) * (2 * N) + 1" by (simp only: bb)
      then have "odd a" by simp
      then show ?thesis by (simp add: a)
    next
      case False
      show ?thesis
      proof (cases "t = 1")
        case True
        with False bN show ?thesis by simp
      next
        case f: False
        with t1 have "2 \<le> t" by simp
        then have "2 * N \<le> t * N" using N1 by (intro mult_right_mono) simp_all
        then have "2 * (2 * N) \<le> 2 * t * N" by (simp add: mult.commute)
        with bN N1 show ?thesis by linarith
      qed
    qed
    have "of_int ((K - 1) * N) + 1 / 2 < x * of_int N"
    proof -
      have "x * of_int N - of_int ((K - 1) * N) = of_int (t * N) / of_int b"
        using br by (simp add: x_def t_def field_simps)
      moreover have "(1::rat) / 2 < of_int (t * N) / of_int b"
      proof -
        have "(of_int b :: rat) < of_int (2 * t * N)" using key by (simp only: of_int_less_iff)
        then show ?thesis using br by (simp add: pos_less_divide_eq)
      qed
      ultimately show ?thesis by linarith
    qed
    then have "(K - 1) * N + 1 \<le> r" unfolding r_def by (rule round_half_even_ge)
    then have "(K - 1) * N < r" by simp
    then have "(of_int ((K - 1) * N) :: rat) < of_int r" by (simp only: of_int_less_iff)
    then have lo': "of_int K - 1 < (of_int r / of_int N :: rat)"
      using Nr by (simp add: pos_less_divide_eq)
    have "(of_int r :: rat) \<le> of_int (K * N)" using rK by (simp only: of_int_le_iff)
    then have up': "(of_int r / of_int N :: rat) \<le> of_int K"
      using Nr by (simp add: pos_divide_le_eq)
    have "\<lceil>(of_int r / of_int N :: rat)\<rceil> = K"
      using lo' up' by (rule ceiling_unique)
    then show ?thesis by (simp add: fr'[symmetric] x_def[symmetric] K_def)
  qed
qed

subsection \<open>The loop of GetLeastFitSliceNum\<close>

lemma Cmp_less: "Cmp q v = - 1 \<longleftrightarrow> number q < number v"
  by (simp add: Cmp_def)

lemma roundAway_zero: "roundAway x = 0 \<longleftrightarrow> x = 0"
proof (cases "0 \<le> x")
  case True
  show ?thesis
  proof (cases "x = 0")
    case z: True
    then show ?thesis by (simp add: roundAway_def)
  next
    case nz: False
    with True have "0 < x" by simp
    then have "0 < \<lceil>x\<rceil>" by (simp only: zero_less_ceiling)
    then have "\<lceil>x\<rceil> \<noteq> 0" by linarith
    then show ?thesis using True nz by (simp add: roundAway_def)
  qed
next
  case False
  then have "x < 0" by simp
  then have "\<lfloor>x\<rfloor> < 0" by (simp only: floor_less_zero)
  then have "\<lfloor>x\<rfloor> \<noteq> 0" by linarith
  then show ?thesis using False by (auto simp: roundAway_def)
qed

text \<open>\<^verbatim>\<open>Value()\<close> is zero for the zero quantity, and for a quantity past the int64 range
  whose overflow result is zero.\<close>

lemma Value_zero:
  "Value v = 0 \<longleftrightarrow>
     number v = 0 \<or>
     (\<not> (- (2 ^ 63) \<le> roundAway (number v) \<and> roundAway (number v) < 2 ^ 63) \<and>
      overflowValue v = 0)"
proof (cases "- (2 ^ 63) \<le> roundAway (number v) \<and> roundAway (number v) < 2 ^ 63")
  case True
  then show ?thesis by (simp add: Value_def Let_def roundAway_zero)
next
  case False
  have "number v \<noteq> 0"
  proof
    assume "number v = 0"
    then have "roundAway (number v) = 0" by (simp add: roundAway_zero)
    with False show False by simp
  qed
  then have nz: "number v = 0 \<longleftrightarrow> False" by simp
  have V: "Value v = overflowValue v" using False by (auto simp: Value_def Let_def)
  show ?thesis unfolding V nz using False by blast
qed

lemma Value_ceiling:
  assumes "0 \<le> number q" "number q \<le> 2 ^ 53"
  shows "Value q = \<lceil>number q\<rceil>"
proof -
  have r: "roundAway (number q) = \<lceil>number q\<rceil>" using assms(1) by (simp add: roundAway_def)
  have "number q \<le> of_int (2 ^ 53)" using assms(2) by simp
  then have u: "\<lceil>number q\<rceil> \<le> 2 ^ 53" by (simp only: ceiling_le_iff)
  have "- 1 < number q" using assms(1) by simp
  then have l: "0 \<le> \<lceil>number q\<rceil>" by (simp add: zero_le_ceiling)
  show ?thesis using u l by (simp add: Value_def Let_def r)
qed

text \<open>The model past the int64 range: a slice of \<^verbatim>\<open>10E\<close> is reported as having value 0,
  and a quota of \<^verbatim>\<open>10E\<close> counts as 0.\<close>

lemma GetLeastFitSliceNum_past_int64:
  "GetLeastFitSliceNum [(''cpu'', Q 20000000000000000000)] [(''cpu'', Q 10000000000000000000)] =
     (0, Some (SliceResourceHasValueZero ''cpu''))"
  "GetLeastFitSliceNum [(''cpu'', Q 10000000000000000000)] [(''cpu'', Q 2)] = (0, None)"
  by code_simp+

lemma rangeQuotaSlice_isl:
  "isl (rangeQuotaSlice quota sl more_keys num) \<longleftrightarrow>
     sliceResourceMissing quota sl \<or> sliceValueZero sl \<or> sliceExceedsQuota quota sl"
proof (induction sl arbitrary: more_keys num)
  case Nil
  then show ?case
    by (simp add: sliceResourceMissing_def sliceValueZero_def sliceExceedsQuota_def)
next
  case (Cons kv sl)
  obtain k v where kv: "kv = (k, v)" by (cases kv)
  show ?case
  proof (cases "map_of quota k")
    case None
    then show ?thesis by (simp add: kv sliceResourceMissing_def)
  next
    case (Some q)
    then show ?thesis
      using Cons.IH
      by (auto simp: kv Let_def Cmp_less sliceResourceMissing_def sliceValueZero_def
          sliceExceedsQuota_def)
  qed
qed

lemma rangeQuotaSlice_more:
  "rangeQuotaSlice quota sl more_keys num = Inr (m, n) \<Longrightarrow> set m = set more_keys - fst ` set sl"
proof (induction sl arbitrary: more_keys num)
  case Nil
  then show ?case by simp
next
  case (Cons kv sl)
  obtain k v where kv: "kv = (k, v)" by (cases kv)
  from Cons.prems obtain q where q: "map_of quota k = Some q"
    by (cases "map_of quota k") (simp_all add: kv)
  from Cons.prems q obtain num' where
    "rangeQuotaSlice quota sl (removeAll k more_keys) num' = Inr (m, n)"
    by (simp add: kv Let_def split: if_splits)
  from Cons.IH[OF this] show ?case by (auto simp: kv)
qed

text \<open>
  Claim C4, as amended. \<^verbatim>\<open>GetLeastFitSliceNum\<close> returns an error exactly when one of
  four failure modes holds: some resource of \<^verbatim>\<open>quotaSlice\<close> is missing from
  \<^verbatim>\<open>quota\<close>; some \<^verbatim>\<open>quotaSlice\<close> dimension has \<^verbatim>\<open>Value()\<close> zero (the quantity is zero,
  or it does not fit an int64 and \<^verbatim>\<open>Value()\<close> yields 0 for it); some \<^verbatim>\<open>quotaSlice\<close>
  quantity is larger than the corresponding \<^verbatim>\<open>quota\<close> quantity; or some resource of
  \<^verbatim>\<open>quota\<close> is missing from \<^verbatim>\<open>quotaSlice\<close> (the check \<^verbatim>\<open>len(more) != 0\<close>). For every
  other input it succeeds. The proof does not look into \<^verbatim>\<open>Value()\<close>: the statement holds
  whatever int64 it returns.
\<close>

theorem GetLeastFitSliceNum_error_iff:
  "snd (GetLeastFitSliceNum quota quotaSlice) \<noteq> None \<longleftrightarrow>
     sliceResourceMissing quota quotaSlice \<or> sliceValueZero quotaSlice \<or>
     sliceExceedsQuota quota quotaSlice \<or> quotaResourceMissing quota quotaSlice"
proof (cases "rangeQuotaSlice quota quotaSlice (remdups (map fst quota)) 0")
  case (Inl err)
  then have "sliceResourceMissing quota quotaSlice \<or> sliceValueZero quotaSlice \<or>
     sliceExceedsQuota quota quotaSlice"
    using rangeQuotaSlice_isl[of quota quotaSlice "remdups (map fst quota)" 0] by simp
  then show ?thesis using Inl by (auto simp: GetLeastFitSliceNum_def)
next
  case (Inr r)
  obtain m n where r: "r = (m, n)" by (cases r)
  have no: "\<not> (sliceResourceMissing quota quotaSlice \<or> sliceValueZero quotaSlice \<or>
     sliceExceedsQuota quota quotaSlice)"
    using Inr rangeQuotaSlice_isl[of quota quotaSlice "remdups (map fst quota)" 0] by simp
  have m: "set m = fst ` set quota - fst ` set quotaSlice"
    using rangeQuotaSlice_more[OF Inr[unfolded r]] by simp
  have "m \<noteq> [] \<longleftrightarrow> quotaResourceMissing quota quotaSlice"
  proof -
    have "m \<noteq> [] \<longleftrightarrow> set m \<noteq> {}" by simp
    also have "\<dots> \<longleftrightarrow> quotaResourceMissing quota quotaSlice"
      by (auto simp: m quotaResourceMissing_def list_ex_iff)
    finally show ?thesis .
  qed
  then show ?thesis using no Inr by (auto simp: GetLeastFitSliceNum_def r)
qed

theorem GetLeastFitSliceNum_error_iff_witness:
  "snd (GetLeastFitSliceNum [(''cpu'', Q 1), (''memory'', Q 1)] [(''cpu'', Q 1)]) \<noteq> None \<and>
   quotaResourceMissing [(''cpu'', Q 1), (''memory'', Q 1)] [(''cpu'', Q 1)] \<and>
   snd (GetLeastFitSliceNum [(''cpu'', Q 20000000000000000000)]
          [(''cpu'', Q 10000000000000000000)]) \<noteq> None \<and>
   sliceValueZero [(''cpu'', Q 10000000000000000000)] \<and>
   snd (GetLeastFitSliceNum [(''cpu'', Q 4), (''memory'', Q 8)]
          [(''cpu'', Q 1), (''memory'', Q 2)]) = None"
proof -
  have m: "quotaResourceMissing [(''cpu'', Q 1), (''memory'', Q 1)] [(''cpu'', Q 1)]"
    by (simp add: quotaResourceMissing_def)
  have z: "sliceValueZero [(''cpu'', Q 10000000000000000000)]"
    by code_simp
  have n: "\<not> (sliceResourceMissing [(''cpu'', Q 4), (''memory'', Q 8)]
              [(''cpu'', Q 1), (''memory'', Q 2)] \<or>
     sliceValueZero [(''cpu'', Q 1), (''memory'', Q 2)] \<or>
     sliceExceedsQuota [(''cpu'', Q 4), (''memory'', Q 8)] [(''cpu'', Q 1), (''memory'', Q 2)] \<or>
     quotaResourceMissing [(''cpu'', Q 4), (''memory'', Q 8)] [(''cpu'', Q 1), (''memory'', Q 2)])"
    by code_simp
  show ?thesis
    using GetLeastFitSliceNum_error_iff [of "[(''cpu'', Q 1), (''memory'', Q 1)]" "[(''cpu'', Q 1)]"]
      GetLeastFitSliceNum_error_iff [of "[(''cpu'', Q 20000000000000000000)]"
        "[(''cpu'', Q 10000000000000000000)]"]
      GetLeastFitSliceNum_error_iff [of "[(''cpu'', Q 4), (''memory'', Q 8)]"
        "[(''cpu'', Q 1), (''memory'', Q 2)]"] m z n
    by blast
qed

text \<open>
  Claim C4 as stated fails: a quota with a resource that quotaSlice lacks is an error,
  although none of the three listed failure modes holds.
\<close>

theorem GetLeastFitSliceNum_three_modes_counterexample:
  "snd (GetLeastFitSliceNum [(''cpu'', Q 1), (''memory'', Q 1)] [(''cpu'', Q 1)]) =
     Some (SliceHasMissingResources [''memory'']) \<and>
   \<not> sliceResourceMissing [(''cpu'', Q 1), (''memory'', Q 1)] [(''cpu'', Q 1)] \<and>
   \<not> sliceValueZero [(''cpu'', Q 1)] \<and>
   \<not> sliceExceedsQuota [(''cpu'', Q 1), (''memory'', Q 1)] [(''cpu'', Q 1)]"
  by code_simp

subsection \<open>The number of slices\<close>

lemma go_int_of_int:
  assumes "- (2 ^ 63) \<le> K" "K < 2 ^ 63"
  shows "go_int (of_int K) = K"
  using assms by (simp add: go_int_def)

lemma ceiling_ceiling_divide:
  assumes "1 \<le> b"
  shows "\<lceil>(of_int \<lceil>x :: rat\<rceil> / of_int b :: rat)\<rceil> = \<lceil>x / of_int b\<rceil>"
proof (rule antisym)
  have br: "(0::rat) < of_int b" using assms by simp
  define K where "K = \<lceil>x / of_int b\<rceil>"
  have "x / of_int b \<le> of_int K" by (simp add: K_def)
  then have "x \<le> of_int K * of_int b" using br by (simp add: pos_divide_le_eq)
  then have "x \<le> of_int (K * b)" by simp
  then have "\<lceil>x\<rceil> \<le> K * b" by (simp only: ceiling_le_iff)
  then have "(of_int \<lceil>x\<rceil> :: rat) \<le> of_int (K * b)" by (simp only: of_int_le_iff)
  then have "(of_int \<lceil>x\<rceil> / of_int b :: rat) \<le> of_int K"
    using br by (simp add: pos_divide_le_eq)
  then show "\<lceil>(of_int \<lceil>x\<rceil> / of_int b :: rat)\<rceil> \<le> \<lceil>x / of_int b\<rceil>"
    unfolding K_def by (simp only: ceiling_le_iff)
next
  have br: "(0::rat) < of_int b" using assms by simp
  have "x \<le> of_int \<lceil>x\<rceil>" by simp
  then have "x / of_int b \<le> of_int \<lceil>x\<rceil> / of_int b"
    using br by (simp add: divide_le_cancel)
  then show "\<lceil>x / of_int b\<rceil> \<le> \<lceil>(of_int \<lceil>x\<rceil> / of_int b :: rat)\<rceil>"
    by (rule ceiling_mono)
qed

lemma slice_num_exact:
  assumes "whole v" "1 \<le> number v" "number v \<le> number q" "number q \<le> 2 ^ 53"
  shows "go_int (math_Ceil (float64_div (float64 (Value q)) (float64 (Value v)))) =
           \<lceil>number q / number v\<rceil>"
proof -
  define a where "a = \<lceil>number q\<rceil>"
  define b where "b = \<lfloor>number v\<rfloor>"
  have v: "number v = of_int b" using assms(1) unfolding whole_def b_def by (rule sym)
  have b1: "1 \<le> b" using assms(2) by (simp add: v)
  have q0: "0 \<le> number q" using assms(2,3) by simp
  have "of_int b \<le> number q" using assms(3) by (simp add: v)
  also have "\<dots> \<le> of_int a" by (simp add: a_def)
  finally have ba: "b \<le> a" by (simp only: of_int_le_iff)
  have "number q \<le> of_int (2 ^ 53)" using assms(4) by simp
  then have a53: "a \<le> 2 ^ 53" unfolding a_def by (simp only: ceiling_le_iff)
  have a1: "1 \<le> a" using b1 ba by simp
  have Vq: "Value q = a" unfolding a_def using q0 assms(4) by (rule Value_ceiling)
  have "number v \<le> 2 ^ 53" using assms(3,4) by simp
  then have "Value v = \<lceil>number v\<rceil>" using assms(2) by (intro Value_ceiling) simp_all
  then have Vv: "Value v = b" by (simp add: v)
  have fa: "float64 a = of_int a" unfolding float64_def using a1 a53 by (rule float64_round_int_exact)
  have "b \<le> 2 ^ 53" using ba a53 by simp
  then have fb: "float64 b = of_int b" unfolding float64_def using b1 float64_round_int_exact by blast
  define K where "K = \<lceil>(of_int a / of_int b :: rat)\<rceil>"
  have c: "\<lceil>float64_div (float64 a) (float64 b)\<rceil> = K"
    unfolding K_def float64_div_def fa fb using b1 ba a53 by (rule ceiling_float64_div_exact)
  have "(of_int a / of_int b :: rat) \<le> of_int a"
    using b1 a1 by (simp add: pos_divide_le_eq mult_le_cancel_left1)
  then have Ka: "K \<le> a" by (simp add: K_def ceiling_le_iff)
  have "(- 1 :: rat) < of_int a / of_int b" using a1 b1 by (simp add: pos_less_divide_eq)
  then have K0: "0 \<le> K" unfolding K_def by (simp add: zero_le_ceiling)
  have g: "go_int (of_int K) = K"
    using K0 Ka a53 by (intro go_int_of_int) simp_all
  have e: "K = \<lceil>number q / of_int b\<rceil>"
    unfolding K_def a_def using b1 by (rule ceiling_ceiling_divide)
  have "go_int (math_Ceil (float64_div (float64 (Value q)) (float64 (Value v)))) = K"
    by (simp add: Vq Vv math_Ceil_def c g)
  then show ?thesis by (simp only: e v)
qed

lemma Max_insert_max:
  assumes "finite S"
  shows "Max (insert (max a b) S) = Max (insert (a::int) (insert b S))"
proof (cases "S = {}")
  case True
  then show ?thesis by (simp add: max.commute)
next
  case False
  with assms show ?thesis by (simp add: max.assoc)
qed

lemma rangeQuotaSlice_exact:
  assumes "\<forall>(k, v) \<in> set sl. \<exists>q. map_of quota k = Some q \<and> whole v \<and>
             1 \<le> number v \<and> number v \<le> number q \<and> number q \<le> 2 ^ 53"
  shows "rangeQuotaSlice quota sl more_keys num =
           Inr (filter (\<lambda>k. k \<notin> fst ` set sl) more_keys,
                Max (insert num
                  ((\<lambda>(r, v). \<lceil>number (quantityOf quota r) / number v\<rceil>) ` set sl)))"
  using assms
proof (induction sl arbitrary: more_keys num)
  case Nil
  then show ?case by simp
next
  case (Cons kv sl)
  obtain k v where kv: "kv = (k, v)" by (cases kv)
  from Cons.prems obtain q where q: "map_of quota k = Some q"
    and g: "whole v" "1 \<le> number v" "number v \<le> number q" "number q \<le> 2 ^ 53"
    by (auto simp: kv)
  have rest: "\<forall>(k, v) \<in> set sl. \<exists>q. map_of quota k = Some q \<and> whole v \<and>
             1 \<le> number v \<and> number v \<le> number q \<and> number q \<le> 2 ^ 53"
    using Cons.prems by simp
  define c where "c = \<lceil>number q / number v\<rceil>"
  have n: "go_int (math_Ceil (float64_div (float64 (Value q)) (float64 (Value v)))) = c"
    unfolding c_def using g by (rule slice_num_exact)
  have "number v \<le> 2 ^ 53" using g(3,4) by simp
  then have "Value v = \<lceil>number v\<rceil>" using g(2) by (intro Value_ceiling) simp_all
  moreover have "0 < number v" using g(2) by simp
  then have "0 < \<lceil>number v\<rceil>" by (simp only: zero_less_ceiling)
  ultimately have v0: "Value v \<noteq> 0" by linarith
  have cmp: "Cmp q v \<noteq> - 1" using g(3) by (simp add: Cmp_def)
  have qo: "\<lceil>number (quantityOf quota k) / number v\<rceil> = c" by (simp add: quantityOf_def q c_def)
  have "rangeQuotaSlice quota (kv # sl) more_keys num =
          rangeQuotaSlice quota sl (removeAll k more_keys) (max num c)"
    using v0 cmp by (simp add: kv q Let_def n max_def)
  also have "\<dots> = Inr (filter (\<lambda>k. k \<notin> fst ` set sl) (removeAll k more_keys),
                Max (insert (max num c)
                  ((\<lambda>(r, v). \<lceil>number (quantityOf quota r) / number v\<rceil>) ` set sl)))"
    by (rule Cons.IH[OF rest])
  also have "filter (\<lambda>k. k \<notin> fst ` set sl) (removeAll k more_keys) =
               filter (\<lambda>k. k \<notin> fst ` set (kv # sl)) more_keys"
    by (induction more_keys) (auto simp: kv)
  also have "Max (insert (max num c)
                 ((\<lambda>(r, v). \<lceil>number (quantityOf quota r) / number v\<rceil>) ` set sl)) =
               Max (insert num
                 ((\<lambda>(r, v). \<lceil>number (quantityOf quota r) / number v\<rceil>) ` set (kv # sl)))"
    by (simp add: Max_insert_max kv qo)
  finally show ?case .
qed

text \<open>
  Claim C3, as amended. For every quota and quotaSlice resource list whose resource-key
  sets are identical, in which every quotaSlice value is a whole number, is at least 1
  and does not exceed the corresponding quota value, and every quota value is at most
  \<open>2^53\<close>, \<^verbatim>\<open>Namespace.GetTotalSlices()\<close> returns the maximum over all resources \<open>r\<close> of
  \<open>ceil(quota[r] / quotaSlice[r])\<close>, and 0 when there is no resource at all. Quota
  values need not be whole.
\<close>

theorem GetTotalSlices_max_ceil:
  assumes "sameResources (ns_quota n) (ns_quotaSlice n)"
    and "list_all (\<lambda>(r, v). whole v \<and> 1 \<le> number v \<and>
                     number v \<le> number (quantityOf (ns_quota n) r)) (ns_quotaSlice n)"
    and "list_all (\<lambda>(r, q). number q \<le> 2 ^ 53) (ns_quota n)"
  shows "GetTotalSlices n =
           (if ns_quotaSlice n = [] then 0 else spec_TotalSlices (ns_quota n) (ns_quotaSlice n))"
proof -
  define quota where "quota = ns_quota n"
  define sl where "sl = ns_quotaSlice n"
  define S where "S = (\<lambda>(r, v). \<lceil>number (quantityOf quota r) / number v\<rceil>) ` set sl"
  have keys: "fst ` set quota = fst ` set sl"
    using assms(1) by (simp add: sameResources_def quota_def sl_def)
  have good: "\<forall>(k, v) \<in> set sl. \<exists>q. map_of quota k = Some q \<and> whole v \<and>
             1 \<le> number v \<and> number v \<le> number q \<and> number q \<le> 2 ^ 53"
  proof (clarify)
    fix k v assume kv: "(k, v) \<in> set sl"
    then have "k \<in> fst ` set quota" using keys by force
    then obtain q where q: "map_of quota k = Some q"
      by (metis map_of_eq_None_iff not_Some_eq)
    then have "(k, q) \<in> set quota" by (rule map_of_SomeD)
    then have "number q \<le> 2 ^ 53"
      using assms(3) by (auto simp: quota_def list_all_iff)
    moreover have "whole v \<and> 1 \<le> number v \<and> number v \<le> number q"
      using assms(2) kv q by (auto simp: quota_def sl_def list_all_iff quantityOf_def)
    ultimately show "\<exists>q. map_of quota k = Some q \<and> whole v \<and>
             1 \<le> number v \<and> number v \<le> number q \<and> number q \<le> 2 ^ 53" using q by simp
  qed
  have r: "rangeQuotaSlice quota sl (remdups (map fst quota)) 0 =
          Inr (filter (\<lambda>k. k \<notin> fst ` set sl) (remdups (map fst quota)), Max (insert 0 S))"
    unfolding S_def by (rule rangeQuotaSlice_exact[OF good])
  have f: "filter (\<lambda>k. k \<notin> fst ` set sl) (remdups (map fst quota)) = []"
    using keys by (auto simp: filter_empty_conv)
  have t: "GetTotalSlices n = Max (insert 0 S)"
    by (simp add: GetTotalSlices_def GetLeastFitSliceNum_def quota_def[symmetric] sl_def[symmetric] r f)
  show ?thesis
  proof (cases "sl = []")
    case True
    then show ?thesis using t by (simp add: S_def sl_def)
  next
    case False
    have fin: "finite S" by (simp add: S_def)
    have ne: "S \<noteq> {}" using False by (simp add: S_def)
    have "\<forall>c \<in> S. 1 \<le> c"
    proof
      fix c assume "c \<in> S"
      then obtain k v where kv: "(k, v) \<in> set sl"
        and c: "c = \<lceil>number (quantityOf quota k) / number v\<rceil>"
        by (auto simp: S_def)
      from good kv obtain q where "map_of quota k = Some q" "1 \<le> number v" "number v \<le> number q"
        by auto
      then have "1 \<le> number (quantityOf quota k) / number v"
        by (simp add: quantityOf_def pos_le_divide_eq)
      then show "1 \<le> c" unfolding c by (simp add: le_ceiling_iff)
    qed
    then have "0 \<le> Max S" using fin ne by (meson Max_in order_trans zero_le_one)
    then have "Max (insert 0 S) = Max S" using fin ne by (simp add: max_def)
    then show ?thesis using t False by (simp add: spec_TotalSlices_def S_def sl_def quota_def)
  qed
qed

theorem GetTotalSlices_max_ceil_witness:
  "sameResources [(''cpu'', Q (11 / 2)), (''memory'', Q 5000)] [(''memory'', Q 1024), (''cpu'', Q 1)] \<and>
   GetTotalSlices (NewNamespace ''tenant'' ''ns'' Map.empty
     [(''cpu'', Q (11 / 2)), (''memory'', Q 5000)] [(''memory'', Q 1024), (''cpu'', Q 1)] []) =
   spec_TotalSlices [(''cpu'', Q (11 / 2)), (''memory'', Q 5000)]
     [(''memory'', Q 1024), (''cpu'', Q 1)] \<and>
   spec_TotalSlices [(''cpu'', Q (11 / 2)), (''memory'', Q 5000)]
     [(''memory'', Q 1024), (''cpu'', Q 1)] = 6"
proof -
  let ?q = "[(''cpu'', Q (11 / 2)), (''memory'', Q 5000)] :: ResourceList"
  let ?s = "[(''memory'', Q 1024), (''cpu'', Q 1)] :: ResourceList"
  let ?n = "NewNamespace ''tenant'' ''ns'' Map.empty ?q ?s []"
  have h1: "sameResources (ns_quota ?n) (ns_quotaSlice ?n)"
    by (auto simp: NewNamespace_def sameResources_def)
  have h2: "list_all (\<lambda>(r, v). whole v \<and> 1 \<le> number v \<and>
                     number v \<le> number (quantityOf (ns_quota ?n) r)) (ns_quotaSlice ?n)"
    by (simp add: NewNamespace_def whole_def quantityOf_def)
  have h3: "list_all (\<lambda>(r, q). number q \<le> 2 ^ 53) (ns_quota ?n)"
    by (simp add: NewNamespace_def)
  have v: "spec_TotalSlices ?q ?s = 6"
    by code_simp
  show ?thesis
    using GetTotalSlices_max_ceil [OF h1 h2 h3] h1 v by (simp add: NewNamespace_def)
qed

text \<open>
  Claim C3 as stated fails where the code's design departs from the formula. A quota
  of \<open>2^53 + 1\<close> with slices of 1 gives \<open>2^53\<close>, because the division is done in float64.
  A quota of 4 with slices of \<open>-2\<close> gives 0, not \<open>-2\<close>, because the result is a count and
  the running maximum starts at 0.
\<close>

theorem GetTotalSlices_max_ceil_counterexample:
  "(sameResources [(''memory'', Q 9007199254740993)] [(''memory'', Q 1)] \<and>
    \<not> sliceValueZero [(''memory'', Q 1)] \<and>
    \<not> sliceExceedsQuota [(''memory'', Q 9007199254740993)] [(''memory'', Q 1)] \<and>
    GetTotalSlices (NewNamespace ''tenant'' ''ns'' Map.empty
      [(''memory'', Q 9007199254740993)] [(''memory'', Q 1)] []) = 9007199254740992 \<and>
    spec_TotalSlices [(''memory'', Q 9007199254740993)] [(''memory'', Q 1)] = 9007199254740993) \<and>
   (sameResources [(''cpu'', Q 4)] [(''cpu'', Q (- 2))] \<and>
    \<not> sliceValueZero [(''cpu'', Q (- 2))] \<and>
    \<not> sliceExceedsQuota [(''cpu'', Q 4)] [(''cpu'', Q (- 2))] \<and>
    GetTotalSlices (NewNamespace ''tenant'' ''ns'' Map.empty
      [(''cpu'', Q 4)] [(''cpu'', Q (- 2))] []) = 0 \<and>
    spec_TotalSlices [(''cpu'', Q 4)] [(''cpu'', Q (- 2))] = - 2)"
proof -
  have b: "GetLeastFitSliceNum [(''memory'', Q 9007199254740993)] [(''memory'', Q 1)] =
             (9007199254740992, None)"
    by code_simp
  have c: "GetLeastFitSliceNum [(''cpu'', Q 4)] [(''cpu'', Q (- 2))] = (0, None)"
    by code_simp
  have z: "\<not> sliceValueZero [(''memory'', Q 1)] \<and> \<not> sliceValueZero [(''cpu'', Q (- 2))]"
    by code_simp
  show ?thesis
    using z
    by (simp add: GetTotalSlices_def NewNamespace_def b c sameResources_def
        sliceExceedsQuota_def spec_TotalSlices_def quantityOf_def)
qed

text \<open>
  Left out of the amended claim C3, and a defect of the code rather than its design:
  with a fractional slice the code counts too few slices. It divides the two
  quantities after rounding each of them up to a whole number with \<^verbatim>\<open>Value()\<close>, while
  the comparison \<^verbatim>\<open>q.Cmp(v)\<close> two lines before is exact. A quota of 2000m in slices of
  500m needs 4 slices and gets 2; a quota of 1500m needs 3 and gets 2.
\<close>

lemma GetTotalSlices_fractional_slice:
  "GetTotalSlices (NewNamespace ''tenant'' ''ns'' Map.empty
     [(''cpu'', Q 2)] [(''cpu'', Q (1 / 2))] []) = 2"
  "spec_TotalSlices [(''cpu'', Q 2)] [(''cpu'', Q (1 / 2))] = 4"
  "GetTotalSlices (NewNamespace ''tenant'' ''ns'' Map.empty
     [(''cpu'', Q (3 / 2))] [(''cpu'', Q (1 / 2))] []) = 2"
  "spec_TotalSlices [(''cpu'', Q (3 / 2))] [(''cpu'', Q (1 / 2))] = 3"
  by code_simp+

text \<open>
  Claim C9. For every quota and quotaSlice pair on which \<^verbatim>\<open>GetLeastFitSliceNum\<close>
  returns an error (also when quota has a resource that quotaSlice lacks),
  \<^verbatim>\<open>Namespace.GetTotalSlices()\<close> drops the error and returns 0, which is also what the
  error-free call on empty resource lists returns.
\<close>

theorem GetTotalSlices_discards_error:
  assumes "snd (GetLeastFitSliceNum (ns_quota n) (ns_quotaSlice n)) \<noteq> None"
  shows "GetTotalSlices n = 0 \<and>
         GetLeastFitSliceNum [] [] = (0, None) \<and>
         GetTotalSlices n =
           GetTotalSlices (NewNamespace (ns_owner n) (ns_name n) (ns_labels n) [] [] (ns_schedule n))"
proof -
  have z: "GetLeastFitSliceNum [] [] = (0, None)"
    by (simp add: GetLeastFitSliceNum_def)
  have "fst (GetLeastFitSliceNum (ns_quota n) (ns_quotaSlice n)) = 0"
    using assms
    by (auto simp: GetLeastFitSliceNum_def split: sum.splits prod.splits if_splits)
  then show ?thesis
    by (simp add: GetTotalSlices_def NewNamespace_def z)
qed

theorem GetTotalSlices_discards_error_witness:
  "snd (GetLeastFitSliceNum [(''cpu'', Q 1), (''memory'', Q 1)] [(''cpu'', Q 1)]) \<noteq> None \<and>
   GetTotalSlices (NewNamespace ''tenant'' ''ns'' Map.empty
     [(''cpu'', Q 1), (''memory'', Q 1)] [(''cpu'', Q 1)] []) = 0"
proof -
  let ?n = "NewNamespace ''tenant'' ''ns'' Map.empty [(''cpu'', Q 1), (''memory'', Q 1)]
              [(''cpu'', Q 1)] []"
  have a: "GetLeastFitSliceNum [(''cpu'', Q 1), (''memory'', Q 1)] [(''cpu'', Q 1)] =
             (0, Some (SliceHasMissingResources [''memory'']))"
    by code_simp
  have h: "snd (GetLeastFitSliceNum (ns_quota ?n) (ns_quotaSlice ?n)) \<noteq> None"
    by (simp add: NewNamespace_def a)
  show ?thesis
    using GetTotalSlices_discards_error [OF h] h by (simp add: NewNamespace_def)
qed

section \<open>Properties of the scheduler cache cluster\<close>

lemmas test_defs = addTestNamespace_def AddNamespace_def testCluster_def NewCluster_def testSlice_def
  NewSlice_def defaultCapacity_def defaultQuotaSlice_def overMemQuotaSlice_def
  overCpuQuotaSlice_def unknownSlice_def quantityOf_def Cmp_def Add_def Equals_def Let_def

text \<open>The model agrees with the cases of \<^verbatim>\<open>TestAddNamespace\<close>: which adds succeed,
  which fail, and the \<open>alloc\<close> the test expects afterwards. The test's second cluster
  name is declared outside the sources; any name other than \<open>testcluster\<close> does.\<close>

lemma TestAddNamespace_one_slice:
  "fst (addTestNamespace [testSlice defaultQuotaSlice]) = None \<and>
   Equals [(''cpu'', Q 500000000), (''memory'', Q 1073741824)]
     (cl_alloc (snd (addTestNamespace [testSlice defaultQuotaSlice])))"
  by (simp add: test_defs)

lemma TestAddNamespace_two_slices:
  "fst (addTestNamespace [testSlice defaultQuotaSlice, testSlice defaultQuotaSlice]) = None \<and>
   Equals [(''cpu'', Q 1000000000), (''memory'', Q 2147483648)]
     (cl_alloc (snd (addTestNamespace [testSlice defaultQuotaSlice, testSlice defaultQuotaSlice])))"
  by (simp add: test_defs)

lemma TestAddNamespace_failures:
  "fst (addTestNamespace [testSlice overMemQuotaSlice]) = Some (CapacityExceeded ''memory'') \<and>
   fst (addTestNamespace [testSlice overCpuQuotaSlice]) = Some (CapacityExceeded ''cpu'') \<and>
   fst (addTestNamespace (replicate 5 (testSlice defaultQuotaSlice))) = Some (CapacityExceeded ''cpu'') \<and>
   fst (addTestNamespace [NewSlice ''testnamespace'' defaultQuotaSlice ''testcluster1'']) =
     Some (SliceOfOtherCluster ''testcluster1'') \<and>
   fst (addTestNamespace [testSlice unknownSlice]) = Some (ResourceNotInCapacity ''unknown'') \<and>
   Equals [(''cpu'', Q 0), (''memory'', Q 0)]
     (cl_alloc (snd (addTestNamespace (replicate 5 (testSlice defaultQuotaSlice)))))"
  by (simp add: test_defs numeral_eq_Suc)

text \<open>
  Claim C5. For every cluster state and every slice list, if
  \<^verbatim>\<open>Cluster.AddNamespace(ns, slices)\<close> returns an error, then the cluster's \<open>alloc\<close> and
  \<open>allocItems\<close> (indeed the whole cluster) are exactly what they were before the call;
  in particular an add of a namespace that is already present fails with no mutation.
\<close>

theorem AddNamespace_error_no_mutation:
  "(fst (AddNamespace c ns slices) \<noteq> None \<longrightarrow>
      cl_alloc (snd (AddNamespace c ns slices)) = cl_alloc c \<and>
      cl_allocItems (snd (AddNamespace c ns slices)) = cl_allocItems c \<and>
      snd (AddNamespace c ns slices) = c) \<and>
   (cl_allocItems c' ns' \<noteq> None \<longrightarrow>
      fst (AddNamespace c' ns' slices') = Some (NamespaceAlreadyAdded ns') \<and>
      snd (AddNamespace c' ns' slices') = c')"
  by (auto simp: AddNamespace_def split: sum.splits)

theorem AddNamespace_error_no_mutation_witness:
  "fst (addTestNamespace (replicate 5 (testSlice defaultQuotaSlice))) \<noteq> None \<and>
   cl_allocItems (snd (addTestNamespace [testSlice defaultQuotaSlice])) ''testnamespace'' \<noteq> None \<and>
   snd (addTestNamespace (replicate 5 (testSlice defaultQuotaSlice))) = testCluster \<and>
   fst (AddNamespace (snd (addTestNamespace [testSlice defaultQuotaSlice])) ''testnamespace''
          [testSlice defaultQuotaSlice]) = Some (NamespaceAlreadyAdded ''testnamespace'') \<and>
   snd (AddNamespace (snd (addTestNamespace [testSlice defaultQuotaSlice])) ''testnamespace''
          [testSlice defaultQuotaSlice]) = snd (addTestNamespace [testSlice defaultQuotaSlice])"
proof -
  have h1: "fst (AddNamespace testCluster ''testnamespace''
              (replicate 5 (testSlice defaultQuotaSlice))) \<noteq> None"
    by (simp add: test_defs numeral_eq_Suc)
  have h2: "cl_allocItems (snd (addTestNamespace [testSlice defaultQuotaSlice])) ''testnamespace'' \<noteq> None"
    by (simp add: test_defs)
  from AddNamespace_error_no_mutation [of testCluster "''testnamespace''"
      "replicate 5 (testSlice defaultQuotaSlice)"
      "snd (addTestNamespace [testSlice defaultQuotaSlice])" "''testnamespace''"
      "[testSlice defaultQuotaSlice]"] h1 h2
  show ?thesis unfolding addTestNamespace_def by blast
qed

section \<open>Properties of the namespace syncer\<close>

lemma sublist_suffix_append: "sublist xs (ps @ xs)"
  by (metis sublist_appendI append_Nil2)

text \<open>
  Claim C2. For every namespace reconcile in which both the tenant namespace and the
  super namespace exist, if the super namespace's \<^verbatim>\<open>LabelUID\<close> annotation differs from
  the request's tenant UID, then the reconcile returns an error whose message contains
  ``delegated UID is different'' and sends no request to the super cluster.
\<close>

theorem Reconcile_update_uid_mismatch:
  assumes "nsc_nsLister_Get c (nsc_ToSuperMasterNamespace c (req_ClusterName r) (req_Name r)) = Inr p"
    and "nsc_Get c (req_ClusterName r) (req_Namespace r) (req_Name r) = Inr v"
    and "stringAt (obj_Annotations p) (nsc_LabelUID c) \<noteq> req_UID r"
  shows "(\<exists>msg. snd (fst (Reconcile c r)) = Some (Errorf msg) \<and>
               sublist ''delegated UID is different'' msg) \<and>
         snd (Reconcile c r) = []"
proof -
  let ?t = "nsc_ToSuperMasterNamespace c (req_ClusterName r) (req_Name r)"
  let ?msg = "''pNamespace '' @ ?t @ '' exists but its delegated UID is different''"
  have u: "reconcileNamespaceUpdate c (req_ClusterName r) ?t (req_UID r) p v =
             (Some (Errorf ?msg), [])"
    using assms(3) by (simp add: reconcileNamespaceUpdate_def)
  have R: "Reconcile c r = ((\<lparr>Requeue = True, RequeueAfter = 0\<rparr>, Some (Errorf ?msg)), [])"
    by (simp add: Reconcile_def Let_def assms(1,2) lookupObject_def u requeueOnError_def)
  have "?msg = (''pNamespace '' @ ?t @ '' exists but its '') @ ''delegated UID is different''"
    by simp
  then have "sublist ''delegated UID is different'' ?msg"
    by (simp only: sublist_suffix_append)
  then show ?thesis by (simp only: R) simp
qed

theorem Reconcile_update_uid_mismatch_witness:
  "(nsc_nsLister_Get (exampleNamespaceController
        [exampleObject ''c1-ns1'' ''p-uid'' [''tenancy.x-k8s.io/uid'' \<mapsto> ''123456'']]
        [exampleObject ''ns1'' ''12345'' Map.empty] None) ''c1-ns1'' =
      Inr (exampleObject ''c1-ns1'' ''p-uid'' [''tenancy.x-k8s.io/uid'' \<mapsto> ''123456'']) \<and>
    ''123456'' \<noteq> req_UID (exampleRequest ''12345'')) \<and>
   ((\<exists>msg. snd (fst (Reconcile
      (exampleNamespaceController
         [exampleObject ''c1-ns1'' ''p-uid'' [''tenancy.x-k8s.io/uid'' \<mapsto> ''123456'']]
         [exampleObject ''ns1'' ''12345'' Map.empty] None)
      (exampleRequest ''12345''))) = Some (Errorf msg) \<and>
      sublist ''delegated UID is different'' msg) \<and>
    snd (Reconcile
      (exampleNamespaceController
         [exampleObject ''c1-ns1'' ''p-uid'' [''tenancy.x-k8s.io/uid'' \<mapsto> ''123456'']]
         [exampleObject ''ns1'' ''12345'' Map.empty] None)
      (exampleRequest ''12345'')) = [])"
proof -
  let ?p = "exampleObject ''c1-ns1'' ''p-uid'' [''tenancy.x-k8s.io/uid'' \<mapsto> ''123456'']"
  let ?v = "exampleObject ''ns1'' ''12345'' Map.empty"
  let ?c = "exampleNamespaceController [?p] [?v] None"
  let ?r = "exampleRequest ''12345''"
  have h1: "nsc_nsLister_Get ?c (nsc_ToSuperMasterNamespace ?c (req_ClusterName ?r) (req_Name ?r)) = Inr ?p"
    by (simp add: exampleNamespaceController_def exampleRequest_def findByName_def exampleObject_def)
  have h2: "nsc_Get ?c (req_ClusterName ?r) (req_Namespace ?r) (req_Name ?r) = Inr ?v"
    by (simp add: exampleNamespaceController_def exampleRequest_def findByName_def exampleObject_def)
  have h3: "stringAt (obj_Annotations ?p) (nsc_LabelUID ?c) \<noteq> req_UID ?r"
    by (simp add: exampleNamespaceController_def exampleRequest_def exampleObject_def stringAt_def)
  have a: "nsc_nsLister_Get ?c ''c1-ns1'' = Inr ?p \<and> ''123456'' \<noteq> req_UID ?r"
    by (simp add: exampleNamespaceController_def exampleRequest_def findByName_def exampleObject_def)
  from a Reconcile_update_uid_mismatch [OF h1 h2 h3] show ?thesis ..
qed

text \<open>The guard of the remove: when the stored delegation UID is not the request's UID,
  the reconcile fails and sends nothing.\<close>

lemma Reconcile_remove_uid_mismatch:
  assumes "nsc_nsLister_Get c (nsc_ToSuperMasterNamespace c (req_ClusterName r) (req_Name r)) = Inr p"
    and "nsc_Get c (req_ClusterName r) (req_Namespace r) (req_Name r) = Inl err"
    and "IsNotFound (Some err)"
    and "stringAt (obj_Annotations p) (nsc_LabelUID c) \<noteq> req_UID r"
  shows "Reconcile c r =
           ((\<lparr>Requeue = True, RequeueAfter = 0\<rparr>,
             Some (Errorf (''to be deleted pNamespace '' @
                     nsc_ToSuperMasterNamespace c (req_ClusterName r) (req_Name r) @
                     '' delegated UID is different from deleted object''))), [])"
  using assms
  by (simp add: Reconcile_def Let_def lookupObject_def requeueOnError_def
      reconcileNamespaceRemove_def)

text \<open>
  Claim C1, as amended. For every namespace reconcile in which the tenant namespace is
  absent and the super namespace exists with a \<^verbatim>\<open>LabelUID\<close> annotation equal to the
  request's UID, exactly one request is sent to the super cluster: a DELETE of the
  super namespace with the default deletion policy and a UID precondition equal to the
  super namespace's own UID.
\<close>

theorem Reconcile_remove_precondition:
  assumes "nsc_nsLister_Get c (nsc_ToSuperMasterNamespace c (req_ClusterName r) (req_Name r)) = Inr p"
    and "nsc_Get c (req_ClusterName r) (req_Namespace r) (req_Name r) = Inl err"
    and "IsNotFound (Some err)"
    and "stringAt (obj_Annotations p) (nsc_LabelUID c) = req_UID r"
  shows "snd (Reconcile c r) =
           [DeleteNamespace (nsc_ToSuperMasterNamespace c (req_ClusterName r) (req_Name r))
              \<lparr>PropagationPolicy = Some (nsc_DefaultDeletionPolicy c),
               Preconditions_UID = Some (obj_UID p)\<rparr>] \<and>
         deletePreconditions (snd (Reconcile c r)) = [Some (obj_UID p)]"
proof -
  let ?t = "nsc_ToSuperMasterNamespace c (req_ClusterName r) (req_Name r)"
  let ?opts = "\<lparr>PropagationPolicy = Some (nsc_DefaultDeletionPolicy c),
               Preconditions_UID = Some (obj_UID p)\<rparr>"
  have u: "snd (reconcileNamespaceRemove c (req_ClusterName r) ?t (req_UID r) p) =
             [DeleteNamespace ?t ?opts]"
    using assms(4) by (simp add: reconcileNamespaceRemove_def Let_def)
  have "snd (Reconcile c r) = [DeleteNamespace ?t ?opts]"
    using assms(3)
    by (simp add: Reconcile_def Let_def assms(1,2) lookupObject_def requeueOnError_def u
        split: option.splits)
  then show ?thesis by (simp add: deletePreconditions_def)
qed

theorem Reconcile_remove_precondition_witness:
  "stringAt (obj_Annotations (exampleObject ''c1-ns1'' ''p-uid'' [''tenancy.x-k8s.io/uid'' \<mapsto> ''12345'']))
     (nsc_LabelUID (exampleNamespaceController
        [exampleObject ''c1-ns1'' ''p-uid'' [''tenancy.x-k8s.io/uid'' \<mapsto> ''12345'']] [] None)) =
     req_UID (exampleRequest ''12345'') \<and>
   deletePreconditions (snd (Reconcile
      (exampleNamespaceController
         [exampleObject ''c1-ns1'' ''p-uid'' [''tenancy.x-k8s.io/uid'' \<mapsto> ''12345'']] [] None)
      (exampleRequest ''12345''))) =
     [Some (obj_UID (exampleObject ''c1-ns1'' ''p-uid'' [''tenancy.x-k8s.io/uid'' \<mapsto> ''12345'']))]"
proof -
  let ?p = "exampleObject ''c1-ns1'' ''p-uid'' [''tenancy.x-k8s.io/uid'' \<mapsto> ''12345'']"
  let ?c = "exampleNamespaceController [?p] [] None"
  let ?r = "exampleRequest ''12345''"
  have h1: "nsc_nsLister_Get ?c (nsc_ToSuperMasterNamespace ?c (req_ClusterName ?r) (req_Name ?r)) = Inr ?p"
    by (simp add: exampleNamespaceController_def exampleRequest_def findByName_def exampleObject_def)
  have h2: "nsc_Get ?c (req_ClusterName ?r) (req_Namespace ?r) (req_Name ?r) = Inl notFound"
    by (simp add: exampleNamespaceController_def exampleRequest_def findByName_def)
  have h3: "IsNotFound (Some notFound)"
    by (simp add: notFound_def)
  have h4: "stringAt (obj_Annotations ?p) (nsc_LabelUID ?c) = req_UID ?r"
    by (simp add: exampleNamespaceController_def exampleRequest_def exampleObject_def stringAt_def)
  from h4 conjunct2 [OF Reconcile_remove_precondition [OF h1 h2 h3 h4]] show ?thesis ..
qed

text \<open>
  Claim C1 as stated fails: the precondition of the DELETE is the UID of the super
  namespace (here \<open>p-uid\<close>), not the delegation UID stored in its annotation (here
  \<open>12345\<close>, the tenant namespace's UID).
\<close>

theorem Reconcile_remove_precondition_counterexample:
  "nsc_nsLister_Get (exampleNamespaceController
        [exampleObject ''c1-ns1'' ''p-uid'' [''tenancy.x-k8s.io/uid'' \<mapsto> ''12345'']] [] None) ''c1-ns1'' =
      Inr (exampleObject ''c1-ns1'' ''p-uid'' [''tenancy.x-k8s.io/uid'' \<mapsto> ''12345'']) \<and>
   nsc_Get (exampleNamespaceController
        [exampleObject ''c1-ns1'' ''p-uid'' [''tenancy.x-k8s.io/uid'' \<mapsto> ''12345'']] [] None)
      ''c1'' [] ''ns1'' = Inl notFound \<and>
   stringAt (obj_Annotations (exampleObject ''c1-ns1'' ''p-uid'' [''tenancy.x-k8s.io/uid'' \<mapsto> ''12345'']))
      ''tenancy.x-k8s.io/uid'' = ''12345'' \<and>
   deletePreconditions (snd (Reconcile
      (exampleNamespaceController
         [exampleObject ''c1-ns1'' ''p-uid'' [''tenancy.x-k8s.io/uid'' \<mapsto> ''12345'']] [] None)
      (exampleRequest ''12345''))) = [Some ''p-uid''] \<and>
   Some ''p-uid'' \<noteq> Some ''12345''"
  by (simp add: Reconcile_def Let_def lookupObject_def requeueOnError_def reconcileNamespaceRemove_def
      deletePreconditions_def exampleNamespaceController_def exampleRequest_def findByName_def
      exampleObject_def stringAt_def notFound_def)

text \<open>
  Claim C6. In the namespace reconcile, a create whose POST to the super cluster fails
  with AlreadyExists returns no error, and a delete whose DELETE on the super cluster
  fails with NotFound returns no error; in both cases the item is not requeued.
\<close>

theorem Reconcile_AlreadyExists_NotFound_success:
  "(nsc_nsLister_Get c (nsc_ToSuperMasterNamespace c (req_ClusterName r) (req_Name r)) = Inl e \<and>
    IsNotFound (Some e) \<and>
    nsc_Get c (req_ClusterName r) (req_Namespace r) (req_Name r) = Inr v \<and>
    nsc_GetOwnerInfo c (req_ClusterName r) = Inr (vcName, vcNamespace, vcUID) \<and>
    nsc_BuildSuperMasterNamespace c (req_ClusterName r) vcName vcNamespace vcUID v = Inr newObj \<and>
    IsAlreadyExists (nsc_Create c newObj) \<longrightarrow>
      Reconcile c r = ((\<lparr>Requeue = False, RequeueAfter = 0\<rparr>, None), [CreateNamespace newObj])) \<and>
   (nsc_nsLister_Get c' (nsc_ToSuperMasterNamespace c' (req_ClusterName r') (req_Name r')) = Inr p \<and>
    nsc_Get c' (req_ClusterName r') (req_Namespace r') (req_Name r') = Inl e' \<and>
    IsNotFound (Some e') \<and>
    stringAt (obj_Annotations p) (nsc_LabelUID c') = req_UID r' \<and>
    IsNotFound (nsc_Delete c' (nsc_ToSuperMasterNamespace c' (req_ClusterName r') (req_Name r'))
       \<lparr>PropagationPolicy = Some (nsc_DefaultDeletionPolicy c'),
        Preconditions_UID = Some (obj_UID p)\<rparr>) \<longrightarrow>
      fst (Reconcile c' r') = (\<lparr>Requeue = False, RequeueAfter = 0\<rparr>, None))"
proof (intro conjI impI)
  assume a: "nsc_nsLister_Get c (nsc_ToSuperMasterNamespace c (req_ClusterName r) (req_Name r)) = Inl e \<and>
    IsNotFound (Some e) \<and>
    nsc_Get c (req_ClusterName r) (req_Namespace r) (req_Name r) = Inr v \<and>
    nsc_GetOwnerInfo c (req_ClusterName r) = Inr (vcName, vcNamespace, vcUID) \<and>
    nsc_BuildSuperMasterNamespace c (req_ClusterName r) vcName vcNamespace vcUID v = Inr newObj \<and>
    IsAlreadyExists (nsc_Create c newObj)"
  let ?t = "nsc_ToSuperMasterNamespace c (req_ClusterName r) (req_Name r)"
  have "reconcileNamespaceCreate c (req_ClusterName r) ?t (req_UID r) v = (None, [CreateNamespace newObj])"
    using a by (simp add: reconcileNamespaceCreate_def Let_def)
  then show "Reconcile c r = ((\<lparr>Requeue = False, RequeueAfter = 0\<rparr>, None), [CreateNamespace newObj])"
    using a by (simp add: Reconcile_def Let_def lookupObject_def requeueOnError_def)
next
  assume b: "nsc_nsLister_Get c' (nsc_ToSuperMasterNamespace c' (req_ClusterName r') (req_Name r')) = Inr p \<and>
    nsc_Get c' (req_ClusterName r') (req_Namespace r') (req_Name r') = Inl e' \<and>
    IsNotFound (Some e') \<and>
    stringAt (obj_Annotations p) (nsc_LabelUID c') = req_UID r' \<and>
    IsNotFound (nsc_Delete c' (nsc_ToSuperMasterNamespace c' (req_ClusterName r') (req_Name r'))
       \<lparr>PropagationPolicy = Some (nsc_DefaultDeletionPolicy c'),
        Preconditions_UID = Some (obj_UID p)\<rparr>)"
  let ?t = "nsc_ToSuperMasterNamespace c' (req_ClusterName r') (req_Name r')"
  have "fst (reconcileNamespaceRemove c' (req_ClusterName r') ?t (req_UID r') p) = None"
    using b by (simp add: reconcileNamespaceRemove_def Let_def)
  then show "fst (Reconcile c' r') = (\<lparr>Requeue = False, RequeueAfter = 0\<rparr>, None)"
    using b by (simp add: Reconcile_def Let_def lookupObject_def requeueOnError_def)
qed

theorem Reconcile_AlreadyExists_NotFound_success_witness:
  "IsAlreadyExists (nsc_Create
      (exampleNamespaceController [] [exampleObject ''ns1'' ''12345'' Map.empty]
         (Some (StatusError StatusReasonAlreadyExists ''already exists'')))
      (exampleObject ''c1-ns1'' [] [''tenancy.x-k8s.io/uid'' \<mapsto> ''12345''])) \<and>
   Reconcile
      (exampleNamespaceController [] [exampleObject ''ns1'' ''12345'' Map.empty]
         (Some (StatusError StatusReasonAlreadyExists ''already exists'')))
      (exampleRequest ''12345'') =
     ((\<lparr>Requeue = False, RequeueAfter = 0\<rparr>, None),
      [CreateNamespace (exampleObject ''c1-ns1'' [] [''tenancy.x-k8s.io/uid'' \<mapsto> ''12345''])]) \<and>
   fst (Reconcile
      (exampleNamespaceController
         [exampleObject ''c1-ns1'' ''p-uid'' [''tenancy.x-k8s.io/uid'' \<mapsto> ''12345'']] []
         (Some notFound))
      (exampleRequest ''12345'')) = (\<lparr>Requeue = False, RequeueAfter = 0\<rparr>, None)"
proof -
  let ?v = "exampleObject ''ns1'' ''12345'' Map.empty"
  let ?new = "exampleObject ''c1-ns1'' [] [''tenancy.x-k8s.io/uid'' \<mapsto> ''12345'']"
  let ?p = "exampleObject ''c1-ns1'' ''p-uid'' [''tenancy.x-k8s.io/uid'' \<mapsto> ''12345'']"
  let ?c = "exampleNamespaceController [] [?v]
              (Some (StatusError StatusReasonAlreadyExists ''already exists''))"
  let ?c' = "exampleNamespaceController [?p] [] (Some notFound)"
  let ?r = "exampleRequest ''12345''"
  have a: "nsc_nsLister_Get ?c (nsc_ToSuperMasterNamespace ?c (req_ClusterName ?r) (req_Name ?r)) =
             Inl notFound \<and>
    IsNotFound (Some notFound) \<and>
    nsc_Get ?c (req_ClusterName ?r) (req_Namespace ?r) (req_Name ?r) = Inr ?v \<and>
    nsc_GetOwnerInfo ?c (req_ClusterName ?r) = Inr (''vc'', ''vc-ns'', ''vc-uid'') \<and>
    nsc_BuildSuperMasterNamespace ?c (req_ClusterName ?r) ''vc'' ''vc-ns'' ''vc-uid'' ?v = Inr ?new \<and>
    IsAlreadyExists (nsc_Create ?c ?new)"
    by (simp add: exampleNamespaceController_def exampleRequest_def findByName_def
        exampleObject_def notFound_def)
  have b: "nsc_nsLister_Get ?c' (nsc_ToSuperMasterNamespace ?c' (req_ClusterName ?r) (req_Name ?r)) =
             Inr ?p \<and>
    nsc_Get ?c' (req_ClusterName ?r) (req_Namespace ?r) (req_Name ?r) = Inl notFound \<and>
    IsNotFound (Some notFound) \<and>
    stringAt (obj_Annotations ?p) (nsc_LabelUID ?c') = req_UID ?r \<and>
    IsNotFound (nsc_Delete ?c' (nsc_ToSuperMasterNamespace ?c' (req_ClusterName ?r) (req_Name ?r))
       \<lparr>PropagationPolicy = Some (nsc_DefaultDeletionPolicy ?c'),
        Preconditions_UID = Some (obj_UID ?p)\<rparr>)"
    by (simp add: exampleNamespaceController_def exampleRequest_def findByName_def
        exampleObject_def notFound_def stringAt_def)
  note th = Reconcile_AlreadyExists_NotFound_success
    [of ?c ?r notFound ?v "''vc''" "''vc-ns''" "''vc-uid''" ?new ?c' ?r ?p notFound]
  from th a b show ?thesis by blast
qed

section \<open>Properties of the service patroller\<close>

lemmas patrol_defs = exampleServiceController_def exampleService_def tenantServices_def
  superServices_def emptyPatrolState_def findByName_def notFound_def stringAt_def
  orphanedService_def deleteOf_def NewPreconditionDeleteOptions_def deletedServices_def

lemma deletedServices_append:
  "deletedServices (es @ es') = deletedServices es @ deletedServices es'"
  by (simp add: deletedServices_def)

lemma deletedServices_emit:
  "deletedServices (effects (emit e st)) =
     deletedServices (effects st) @
       (case e of DeleteService ns nm opts \<Rightarrow> [(ns, nm, opts)] | _ \<Rightarrow> [])"
  by (simp add: emit_def deletedServices_def)

lemma deletedServices_requeueTenantService:
  "deletedServices (effects (requeueTenantService c cl v st)) = deletedServices (effects st)"
  by (simp add: requeueTenantService_def Let_def deletedServices_emit split: option.splits)

lemma deletedServices_checkTenantService:
  "deletedServices (effects (checkTenantService c cl v st)) = deletedServices (effects st)"
  by (simp add: checkTenantService_def Let_def deletedServices_emit
      deletedServices_requeueTenantService split: sum.splits option.splits)

lemma deletedServices_fold_checkTenantService:
  "deletedServices (effects (fold (checkTenantService c cl) items st)) =
     deletedServices (effects st)"
  by (induction items arbitrary: st) (simp_all add: deletedServices_checkTenantService)

lemma deletedServices_checkServicesOfTenantCluster:
  "deletedServices (effects (checkServicesOfTenantCluster c cl st)) = deletedServices (effects st)"
  by (simp add: checkServicesOfTenantCluster_def deletedServices_fold_checkTenantService
      split: sum.splits)

lemma deletedServices_fold_checkServicesOfTenantCluster:
  "deletedServices (effects (fold (checkServicesOfTenantCluster c) cls st)) =
     deletedServices (effects st)"
  by (induction cls arbitrary: st) (simp_all add: deletedServices_checkServicesOfTenantCluster)

lemma deletedServices_patrolSuperService:
  "deletedServices (effects (patrolSuperService c p st)) =
     deletedServices (effects st) @ (if orphanedService c p then [deleteOf p] else [])"
proof (cases "svc_GetVirtualOwner c p")
  case (Pair cl ns)
  show ?thesis
  proof (cases "cl = [] \<or> ns = []")
    case True
    then show ?thesis by (auto simp: patrolSuperService_def orphanedService_def Pair)
  next
    case False
    then show ?thesis
      by (cases "svc_Get c cl ns (obj_Name p)")
        (simp_all add: patrolSuperService_def orphanedService_def Pair Let_def
          deletedServices_emit deleteOf_def split: option.splits)
  qed
qed

lemma deletedServices_fold_patrolSuperService:
  "deletedServices (effects (fold (patrolSuperService c) ps st)) =
     deletedServices (effects st) @ map deleteOf (filter (orphanedService c) ps)"
  by (induction ps arbitrary: st) (simp_all add: deletedServices_patrolSuperService)

text \<open>
  Claim C8, as amended. During every service patrol pass that runs with at least one
  tenant cluster joined and in which listing the super cluster's services succeeds, the
  deletes the patroller issues are exactly these: for every listed super-cluster
  service whose labels identify a tenant owner, and whose tenant counterpart is not
  found in the tenant cache or has a UID other than the service's \<^verbatim>\<open>LabelUID\<close>
  annotation, one delete of that service with its own UID as the precondition. Services
  whose pair is intact are not deleted.
\<close>

theorem PatrollerDo_deletes_orphans:
  assumes "svc_GetClusterNames c \<noteq> []"
    and "svc_serviceLister_List c = Inr pServices"
  shows "deletedServices (effects (PatrollerDo c st)) =
           deletedServices (effects st) @ map deleteOf (filter (orphanedService c) pServices)"
  using assms
  by (simp add: PatrollerDo_def Let_def deletedServices_emit deletedServices_fold_patrolSuperService
      deletedServices_fold_checkServicesOfTenantCluster)

theorem PatrollerDo_deletes_orphans_witness:
  "svc_GetClusterNames (exampleServiceController [''c1''] tenantServices superServices) \<noteq> [] \<and>
   deletedServices (effects (PatrollerDo
      (exampleServiceController [''c1''] tenantServices superServices) emptyPatrolState)) =
     [(''c1-default'', ''svc-b'', \<lparr>PropagationPolicy = None, Preconditions_UID = Some ''p2''\<rparr>)]"
proof -
  let ?c = "exampleServiceController [''c1''] tenantServices superServices"
  have h1: "svc_GetClusterNames ?c \<noteq> []"
    by (simp add: exampleServiceController_def)
  have h2: "svc_serviceLister_List ?c = Inr superServices"
    by (simp add: exampleServiceController_def)
  have r: "deletedServices (effects emptyPatrolState) @
             map deleteOf (filter (orphanedService ?c) superServices) =
           [(''c1-default'', ''svc-b'', \<lparr>PropagationPolicy = None, Preconditions_UID = Some ''p2''\<rparr>)]"
    by (simp add: patrol_defs)
  from h1 PatrollerDo_deletes_orphans [OF h1 h2, of emptyPatrolState] r
  show ?thesis by simp
qed

text \<open>
  Claim C8 as stated fails: with no tenant cluster joined, \<^verbatim>\<open>PatrollerDo\<close> returns at
  once, and a super-cluster service whose tenant counterpart is missing is not deleted.
\<close>

theorem PatrollerDo_no_clusters_counterexample:
  "svc_serviceLister_List (exampleServiceController [] [] superServices) = Inr superServices \<and>
   orphanedService (exampleServiceController [] [] superServices)
     (exampleService ''c1-default'' ''svc-b'' ''p2''
        [''cluster'' \<mapsto> ''c1'', ''namespace'' \<mapsto> ''default'', ''uid'' \<mapsto> ''u2'']) \<and>
   exampleService ''c1-default'' ''svc-b'' ''p2''
        [''cluster'' \<mapsto> ''c1'', ''namespace'' \<mapsto> ''default'', ''uid'' \<mapsto> ''u2'']
     \<in> set superServices \<and>
   effects (PatrollerDo (exampleServiceController [] [] superServices) emptyPatrolState) = []"
  by (simp add: PatrollerDo_def patrol_defs)

section \<open>Properties of the object validator\<close>

lemmas validator_defs = exampleValidator_def exampleNamespaceObject_def exampleSecret_def
  exampleAdmission_def propagatedSecret_def validated_def inherited_def inheritedFrom_def
  isPropagateType_def GetLabel_def findByName_def notFound_def namespaceTerminating_def IsZero_def

lemma handle_inherited:
  assumes "inherited ov inst \<or> inherited ov oldInst"
  shows "handle ov op inst oldInst =
           handleInherited ov op (inheritedFrom ov inst) (inheritedFrom ov oldInst) inst oldInst"
  using assms by (auto simp: handle_def inherited_def inheritedFrom_def split: prod.splits)

lemma not_inherited_empty: "\<not> inherited ov emptyUnstructured"
  by (simp add: inherited_def GetLabel_def emptyUnstructured_def)

lemma Allowed_handleInherited_Delete:
  "Allowed (handleInherited ov Delete newSource oldSource inst oldInst) \<longleftrightarrow>
     namespaceTerminating ov (obj_Namespace oldInst)"
  by (auto simp: handleInherited_def isDeletingNS_def namespaceTerminating_def allow_def deny_def
      split: sum.splits)

text \<open>What \<^verbatim>\<open>handleInherited\<close> itself decides, for any arguments.\<close>

lemma handleInherited_decisions:
  "\<not> Allowed (handleInherited ov Create newSource oldSource inst oldInst)"
  "Allowed (handleInherited ov Delete newSource oldSource inst oldInst) \<longleftrightarrow>
     namespaceTerminating ov (obj_Namespace oldInst)"
  "Allowed (handleInherited ov Update newSource oldSource inst oldInst) \<longleftrightarrow>
     newSource = oldSource \<and> ov_Canonical ov inst = ov_Canonical ov oldInst"
  by (simp_all add: Allowed_handleInherited_Delete) (simp_all add: handleInherited_def allow_def deny_def)

text \<open>
  Claim C7, as amended. For every admission request that is validated (its namespace
  is not excluded, its type is in propagate mode, its user is not the HNC service
  account) on an object carrying the \<^verbatim>\<open>LabelInheritedFrom\<close> label: a create is denied;
  a delete is allowed if and only if the object's namespace is terminating (it has a
  deletion timestamp, or it is not found); and an update that changes the
  \<^verbatim>\<open>LabelInheritedFrom\<close> value or the object's canonical form is denied.
\<close>

theorem Handle_inherited_object:
  "(validated ov req \<and> ar_Operation req = Create \<and> ar_Object req = Inr inst \<and>
    inherited ov inst \<longrightarrow> \<not> Allowed (Handle ov req)) \<and>
   (validated ov' req' \<and> ar_Operation req' = Delete \<and> ar_OldObject req' = Some (Inr oldInst') \<and>
    inherited ov' oldInst' \<longrightarrow>
      (Allowed (Handle ov' req') \<longleftrightarrow> namespaceTerminating ov' (obj_Namespace oldInst'))) \<and>
   (validated ov'' req'' \<and> ar_Operation req'' = Update \<and> ar_Object req'' = Inr inst'' \<and>
    ar_OldObject req'' = Some (Inr oldInst'') \<and>
    (inherited ov'' inst'' \<or> inherited ov'' oldInst'') \<and>
    (inheritedFrom ov'' inst'' \<noteq> inheritedFrom ov'' oldInst'' \<or>
     ov_Canonical ov'' inst'' \<noteq> ov_Canonical ov'' oldInst'') \<longrightarrow>
      \<not> Allowed (Handle ov'' req''))"
proof (intro conjI impI)
  assume a: "validated ov req \<and> ar_Operation req = Create \<and> ar_Object req = Inr inst \<and>
    inherited ov inst"
  then have "Handle ov req = handle ov Create inst emptyUnstructured"
    by (simp add: Handle_def validated_def)
  also have "\<dots> = handleInherited ov Create (inheritedFrom ov inst)
      (inheritedFrom ov emptyUnstructured) inst emptyUnstructured"
    using a by (simp add: handle_inherited)
  finally show "\<not> Allowed (Handle ov req)"
    by (simp add: handleInherited_def deny_def)
next
  assume a: "validated ov' req' \<and> ar_Operation req' = Delete \<and>
    ar_OldObject req' = Some (Inr oldInst') \<and> inherited ov' oldInst'"
  then have "Handle ov' req' = handle ov' Delete emptyUnstructured oldInst'"
    by (simp add: Handle_def validated_def)
  also have "\<dots> = handleInherited ov' Delete (inheritedFrom ov' emptyUnstructured)
      (inheritedFrom ov' oldInst') emptyUnstructured oldInst'"
    using a by (simp add: handle_inherited)
  finally show "Allowed (Handle ov' req') \<longleftrightarrow> namespaceTerminating ov' (obj_Namespace oldInst')"
    by (simp add: Allowed_handleInherited_Delete)
next
  assume a: "validated ov'' req'' \<and> ar_Operation req'' = Update \<and> ar_Object req'' = Inr inst'' \<and>
    ar_OldObject req'' = Some (Inr oldInst'') \<and>
    (inherited ov'' inst'' \<or> inherited ov'' oldInst'') \<and>
    (inheritedFrom ov'' inst'' \<noteq> inheritedFrom ov'' oldInst'' \<or>
     ov_Canonical ov'' inst'' \<noteq> ov_Canonical ov'' oldInst'')"
  then have "Handle ov'' req'' = handle ov'' Update inst'' oldInst''"
    by (simp add: Handle_def validated_def)
  also have "\<dots> = handleInherited ov'' Update (inheritedFrom ov'' inst'')
      (inheritedFrom ov'' oldInst'') inst'' oldInst''"
    using a by (simp add: handle_inherited)
  finally show "\<not> Allowed (Handle ov'' req'')"
    using a by (auto simp: handleInherited_def deny_def)
qed

theorem Handle_inherited_object_witness:
  "\<not> Allowed (Handle (exampleValidator [exampleNamespaceObject ''child'' None])
        (exampleAdmission ''child'' Create (Inr (propagatedSecret ''child'' ''data'')) None)) \<and>
   \<not> Allowed (Handle (exampleValidator [exampleNamespaceObject ''child'' None])
        (exampleAdmission ''child'' Delete (Inl [])
           (Some (Inr (propagatedSecret ''child'' ''data''))))) \<and>
   Allowed (Handle (exampleValidator [exampleNamespaceObject ''child'' (Some 1700000000)])
        (exampleAdmission ''child'' Delete (Inl [])
           (Some (Inr (propagatedSecret ''child'' ''data''))))) \<and>
   \<not> Allowed (Handle (exampleValidator [exampleNamespaceObject ''child'' None])
        (exampleAdmission ''child'' Update (Inr (propagatedSecret ''child'' ''changed''))
           (Some (Inr (propagatedSecret ''child'' ''data'')))))"
proof -
  let ?ov = "exampleValidator [exampleNamespaceObject ''child'' None]"
  let ?ovT = "exampleValidator [exampleNamespaceObject ''child'' (Some 1700000000)]"
  let ?s = "propagatedSecret ''child'' ''data''"
  let ?s' = "propagatedSecret ''child'' ''changed''"
  let ?create = "exampleAdmission ''child'' Create (Inr ?s) None"
  let ?delete = "exampleAdmission ''child'' Delete (Inl []) (Some (Inr ?s))"
  let ?update = "exampleAdmission ''child'' Update (Inr ?s') (Some (Inr ?s))"
  have c: "validated ?ov ?create \<and> ar_Operation ?create = Create \<and> ar_Object ?create = Inr ?s \<and>
           inherited ?ov ?s"
    by (simp add: validator_defs)
  have d: "validated ?ov ?delete \<and> ar_Operation ?delete = Delete \<and>
           ar_OldObject ?delete = Some (Inr ?s) \<and> inherited ?ov ?s"
    by (simp add: validator_defs)
  have dT: "validated ?ovT ?delete \<and> ar_Operation ?delete = Delete \<and>
           ar_OldObject ?delete = Some (Inr ?s) \<and> inherited ?ovT ?s"
    by (simp add: validator_defs)
  have u: "validated ?ov ?update \<and> ar_Operation ?update = Update \<and> ar_Object ?update = Inr ?s' \<and>
           ar_OldObject ?update = Some (Inr ?s) \<and>
           (inherited ?ov ?s' \<or> inherited ?ov ?s) \<and>
           (inheritedFrom ?ov ?s' \<noteq> inheritedFrom ?ov ?s \<or>
            ov_Canonical ?ov ?s' \<noteq> ov_Canonical ?ov ?s)"
    by (simp add: validator_defs)
  have n: "\<not> namespaceTerminating ?ov (obj_Namespace ?s)"
    by (simp add: validator_defs)
  have t: "namespaceTerminating ?ovT (obj_Namespace ?s)"
    by (simp add: validator_defs)
  note th = Handle_inherited_object [of ?ov ?create ?s ?ov ?delete ?s ?ov ?update ?s' ?s]
  note thT = Handle_inherited_object [of ?ov ?create ?s ?ovT ?delete ?s ?ov ?update ?s' ?s]
  from th thT c d dT u n t show ?thesis by blast
qed

text \<open>
  Claim C7 as stated fails: in an excluded namespace, a create of an object with the
  \<^verbatim>\<open>LabelInheritedFrom\<close> label by a user who is not the HNC service account is
  allowed.
\<close>

theorem Handle_excluded_namespace_counterexample:
  "\<not> ov_isHNCServiceAccount (exampleValidator []) (ar_UserInfo
        (exampleAdmission ''kube-system'' Create (Inr (propagatedSecret ''kube-system'' ''data'')) None)) \<and>
   inherited (exampleValidator []) (propagatedSecret ''kube-system'' ''data'') \<and>
   ar_Operation (exampleAdmission ''kube-system'' Create
        (Inr (propagatedSecret ''kube-system'' ''data'')) None) = Create \<and>
   Allowed (Handle (exampleValidator [])
        (exampleAdmission ''kube-system'' Create (Inr (propagatedSecret ''kube-system'' ''data'')) None))"
  by (simp add: Handle_def allow_def validator_defs)

text \<open>
  Claim C10. For every update request (by any user, so also by one who is not the HNC
  service account) on an object carrying the \<^verbatim>\<open>LabelInheritedFrom\<close> label, if the
  \<^verbatim>\<open>LabelInheritedFrom\<close> value is unchanged and the canonical form of the new object
  equals that of the old object, the update is allowed.
\<close>

theorem Handle_inherited_update_allowed:
  assumes "ar_Operation req = Update"
    and "ar_Object req = Inr inst"
    and "ar_OldObject req = Some (Inr oldInst)"
    and "inherited ov inst \<or> inherited ov oldInst"
    and "inheritedFrom ov inst = inheritedFrom ov oldInst"
    and "ov_Canonical ov inst = ov_Canonical ov oldInst"
  shows "Allowed (Handle ov req)"
proof -
  have "Allowed (handle ov Update inst oldInst)"
    using assms(4,5,6) by (simp add: handle_inherited handleInherited_def allow_def)
  then show ?thesis
    using assms(1,2,3) by (simp add: Handle_def allow_def)
qed

theorem Handle_inherited_update_allowed_witness:
  "inherited (exampleValidator []) (propagatedSecret ''child'' ''data'') \<and>
   Allowed (Handle (exampleValidator [])
        (exampleAdmission ''child'' Update
           (Inr ((propagatedSecret ''child'' ''data'')\<lparr>obj_Annotations := [''note'' \<mapsto> ''x'']\<rparr>))
           (Some (Inr (propagatedSecret ''child'' ''data'')))))"
proof -
  let ?ov = "exampleValidator []"
  let ?s = "propagatedSecret ''child'' ''data''"
  let ?s' = "(propagatedSecret ''child'' ''data'')\<lparr>obj_Annotations := [''note'' \<mapsto> ''x'']\<rparr>"
  let ?update = "exampleAdmission ''child'' Update (Inr ?s') (Some (Inr ?s))"
  have h1: "ar_Operation ?update = Update" by (simp add: exampleAdmission_def)
  have h2: "ar_Object ?update = Inr ?s'" by (simp add: exampleAdmission_def)
  have h3: "ar_OldObject ?update = Some (Inr ?s)" by (simp add: exampleAdmission_def)
  have i: "inherited ?ov ?s" by (simp add: validator_defs)
  then have h4: "inherited ?ov ?s' \<or> inherited ?ov ?s" by simp
  have h5: "inheritedFrom ?ov ?s' = inheritedFrom ?ov ?s" by (simp add: validator_defs)
  have h6: "ov_Canonical ?ov ?s' = ov_Canonical ?ov ?s" by (simp add: validator_defs)
  from i Handle_inherited_update_allowed [OF h1 h2 h3 h4 h5 h6] show ?thesis ..
qed

end
